theory Spec2Isabelle
  imports Complex_Main
begin

section \<open>TasteNet-MNL: a shallow embedding of phase8\_tastenet\_mnl.py\<close>

text \<open>
  Conventions of the embedding.
  \<^item> Tensor entries are real numbers: rounding, overflow and underflow of the 32-bit floats
    are not modelled.  The one non-number that exact arithmetic still produces, the
    \<open>nan\<close> of a mean over zero elements, is kept (type \<open>pyfloat\<close>).
  \<^item> Tensors have rank 2, as the docstring of \<open>TasteNetMNL.forward\<close> declares them; a
    tensor is its shape and its entries.  Entries outside the shape carry no meaning.
  \<^item> Every raise of the program or of the library is a value \<open>Inl e\<close>.
  \<^item> The global random generator that \<open>nn.Dropout\<close> samples from in training mode is an
    explicit argument: a function that says, for the dropout layer of block \<open>k\<close>, which
    entries \<open>(i, j)\<close> are kept.
\<close>

subsection \<open>Errors and tensors\<close>

text \<open>
  \<open>ShapeError\<close> is the library's \<open>RuntimeError\<close> for shapes that do not fit; the others are
  the Python exceptions of the same name.
\<close>

datatype error = ShapeError | ValueError | IndexError | ZeroDivisionError | FileNotFoundError

type_synonym dropout_sample = "nat \<Rightarrow> nat \<Rightarrow> nat \<Rightarrow> bool"

record tensor =
  nrows :: nat
  ncols :: nat
  entry :: "nat \<Rightarrow> nat \<Rightarrow> real"

definition bind_err :: "error + 'a \<Rightarrow> ('a \<Rightarrow> error + 'b) \<Rightarrow> error + 'b" where
  "bind_err r f = (case r of Inl e \<Rightarrow> Inl e | Inr x \<Rightarrow> f x)"

text \<open>\<open>torch.zeros(r, c)\<close>.\<close>

definition zeros :: "nat \<Rightarrow> nat \<Rightarrow> tensor" where
  "zeros r c = \<lparr>nrows = r, ncols = c, entry = (\<lambda>i j. 0)\<rparr>"

text \<open>\<open>A @ B\<close> on matrices: the inner sizes must agree.\<close>

definition matmul :: "tensor \<Rightarrow> tensor \<Rightarrow> error + tensor" where
  "matmul A B =
     (if ncols A = nrows B
      then Inr \<lparr>nrows = nrows A, ncols = ncols B,
                entry = (\<lambda>i j. \<Sum>k<ncols A. entry A i k * entry B k j)\<rparr>
      else Inl ShapeError)"

text \<open>\<open>torch.cat([A, B], dim=1)\<close>: the row counts must agree.\<close>

definition cat1 :: "tensor \<Rightarrow> tensor \<Rightarrow> error + tensor" where
  "cat1 A B =
     (if nrows A = nrows B
      then Inr \<lparr>nrows = nrows A, ncols = ncols A + ncols B,
                entry = (\<lambda>i j. if j < ncols A then entry A i j else entry B i (j - ncols A))\<rparr>
      else Inl ShapeError)"

text \<open>
  Broadcasting of an elementwise binary operation: along each dimension the sizes must be
  equal or one of them must be 1; a dimension of size 1 is read at index 0 for every index
  of the result.
\<close>

definition bdim :: "nat \<Rightarrow> nat \<Rightarrow> nat option" where
  "bdim a b = (if a = b then Some a else if a = 1 then Some b else if b = 1 then Some a else None)"

definition bidx :: "nat \<Rightarrow> nat \<Rightarrow> nat" where
  "bidx d i = (if d = 1 then 0 else i)"

text \<open>The entry that position \<open>(i, j)\<close> of a broadcast result reads from the operand \<open>T\<close>.\<close>

definition bget :: "tensor \<Rightarrow> nat \<Rightarrow> nat \<Rightarrow> real" where
  "bget T i j = entry T (bidx (nrows T) i) (bidx (ncols T) j)"

definition broadcast2 :: "(real \<Rightarrow> real \<Rightarrow> real) \<Rightarrow> tensor \<Rightarrow> tensor \<Rightarrow> error + tensor" where
  "broadcast2 f A B =
     (case bdim (nrows A) (nrows B) of
        None \<Rightarrow> Inl ShapeError
      | Some r \<Rightarrow>
          (case bdim (ncols A) (ncols B) of
             None \<Rightarrow> Inl ShapeError
           | Some c \<Rightarrow>
               Inr \<lparr>nrows = r, ncols = c, entry = (\<lambda>i j. f (bget A i j) (bget B i j))\<rparr>))"

definition tmul :: "tensor \<Rightarrow> tensor \<Rightarrow> error + tensor" where
  "tmul = broadcast2 (\<lambda>x y. x * y)"

definition tadd :: "tensor \<Rightarrow> tensor \<Rightarrow> error + tensor" where
  "tadd = broadcast2 (\<lambda>x y. x + y)"

text \<open>
  \<open>torch.log_softmax(V, dim=1)\<close>: the library subtracts the maximum of the row before it
  exponentiates, and subtracts the logarithm of the sum.
\<close>

definition row_max :: "tensor \<Rightarrow> nat \<Rightarrow> real" where
  "row_max V i = Max ((\<lambda>k. entry V i k) ` {..<ncols V})"

definition log_softmax :: "tensor \<Rightarrow> tensor" where
  "log_softmax V =
     \<lparr>nrows = nrows V, ncols = ncols V,
      entry = (\<lambda>i j. entry V i j - row_max V i
                       - ln (\<Sum>k<ncols V. exp (entry V i k - row_max V i)))\<rparr>"

text \<open>\<open>torch.exp\<close>, elementwise.\<close>

definition texp :: "tensor \<Rightarrow> tensor" where
  "texp T = \<lparr>nrows = nrows T, ncols = ncols T, entry = (\<lambda>i j. exp (entry T i j))\<rparr>"

subsection \<open>The layers of the TasteNet\<close>

text \<open>\<open>nn.Linear\<close>: \<open>weight\<close> has shape [out, in]; the result is \<open>x @ weight.T + bias\<close>.\<close>

record linear =
  weight :: tensor
  bias :: "nat \<Rightarrow> real"

definition linear_forward :: "linear \<Rightarrow> tensor \<Rightarrow> error + tensor" where
  "linear_forward L x =
     (if ncols x = ncols (weight L)
      then Inr \<lparr>nrows = nrows x, ncols = nrows (weight L),
                entry = (\<lambda>i j. (\<Sum>k<ncols x. entry x i k * entry (weight L) j k) + bias L j)\<rparr>
      else Inl ShapeError)"

text \<open>\<open>nn.ReLU\<close>.\<close>

definition relu :: "tensor \<Rightarrow> tensor" where
  "relu x = \<lparr>nrows = nrows x, ncols = ncols x, entry = (\<lambda>i j. max 0 (entry x i j))\<rparr>"

text \<open>
  \<open>nn.BatchNorm1d\<close> with the library's defaults (\<open>eps = 1e-5\<close>, \<open>momentum = 0.1\<close>, affine,
  running statistics tracked).  In evaluation mode it normalises with the running
  statistics and changes nothing.  In training mode it counts the batch, refuses a batch of
  one row, normalises with the statistics of the batch and moves the running statistics
  towards them (the running variance towards the unbiased variance of the batch); a batch
  of no rows passes through and leaves the running statistics alone.
\<close>

record batchnorm =
  num_features :: nat
  bn_weight :: "nat \<Rightarrow> real"
  bn_bias :: "nat \<Rightarrow> real"
  running_mean :: "nat \<Rightarrow> real"
  running_var :: "nat \<Rightarrow> real"
  num_batches_tracked :: nat

definition bn_eps :: real where
  "bn_eps = 1 / 100000"

definition bn_momentum :: real where
  "bn_momentum = 1 / 10"

definition batch_mean :: "tensor \<Rightarrow> nat \<Rightarrow> real" where
  "batch_mean x j = (\<Sum>i<nrows x. entry x i j) / real (nrows x)"

definition batch_var :: "tensor \<Rightarrow> nat \<Rightarrow> real" where
  "batch_var x j = (\<Sum>i<nrows x. (entry x i j - batch_mean x j)\<^sup>2) / real (nrows x)"

definition batch_var_unbiased :: "tensor \<Rightarrow> nat \<Rightarrow> real" where
  "batch_var_unbiased x j = (\<Sum>i<nrows x. (entry x i j - batch_mean x j)\<^sup>2) / real (nrows x - 1)"

definition normalise :: "(nat \<Rightarrow> real) \<Rightarrow> (nat \<Rightarrow> real) \<Rightarrow> batchnorm \<Rightarrow> tensor \<Rightarrow> tensor" where
  "normalise mu var bn x =
     \<lparr>nrows = nrows x, ncols = ncols x,
      entry = (\<lambda>i j. (entry x i j - mu j) / sqrt (var j + bn_eps) * bn_weight bn j + bn_bias bn j)\<rparr>"

definition batchnorm_forward :: "bool \<Rightarrow> batchnorm \<Rightarrow> tensor \<Rightarrow> (error + tensor) \<times> batchnorm" where
  "batchnorm_forward training bn x =
     (if \<not> training then
        (if ncols x = num_features bn
         then (Inr (normalise (running_mean bn) (running_var bn) bn x), bn)
         else (Inl ShapeError, bn))
      else
        (let bn1 = bn\<lparr>num_batches_tracked := num_batches_tracked bn + 1\<rparr> in
         if nrows x = 1 then (Inl ValueError, bn1)
         else if ncols x \<noteq> num_features bn then (Inl ShapeError, bn1)
         else if nrows x = 0 then (Inr x, bn1)
         else
           (Inr (normalise (batch_mean x) (batch_var x) bn x),
            bn1\<lparr>running_mean := (\<lambda>j. (1 - bn_momentum) * running_mean bn j
                                        + bn_momentum * batch_mean x j),
                running_var := (\<lambda>j. (1 - bn_momentum) * running_var bn j
                                       + bn_momentum * batch_var_unbiased x j)\<rparr>)))"

text \<open>
  \<open>nn.Dropout(0.2)\<close>: the identity in evaluation mode; in training mode every entry is
  kept with probability 0.8 and a kept entry is divided by 0.8.  \<open>keep\<close> is the sample.
\<close>

definition dropout_p :: real where
  "dropout_p = 2 / 10"

definition dropout_forward :: "bool \<Rightarrow> (nat \<Rightarrow> nat \<Rightarrow> bool) \<Rightarrow> tensor \<Rightarrow> tensor" where
  "dropout_forward training keep x =
     (if \<not> training then x
      else \<lparr>nrows = nrows x, ncols = ncols x,
            entry = (\<lambda>i j. if keep i j then entry x i j / (1 - dropout_p) else 0)\<rparr>)"

subsection \<open>TasteNet\<close>

text \<open>
  \<open>TasteNet.__init__\<close> appends, for every hidden dimension, the four layers
  \<open>Linear, ReLU, BatchNorm1d, Dropout(0.2)\<close>, and at the end one more \<open>Linear\<close>.  A
  \<open>block\<close> holds the state of the four layers of one hidden dimension.
\<close>

record block =
  blk_linear :: linear
  blk_bn :: batchnorm

record TasteNet =
  hidden :: "block list"
  out_linear :: linear

text \<open>One hidden block; \<open>keep\<close> is the dropout sample of this block.\<close>

definition block_forward :: "bool \<Rightarrow> (nat \<Rightarrow> nat \<Rightarrow> bool) \<Rightarrow> block \<Rightarrow> tensor \<Rightarrow> (error + tensor) \<times> block" where
  "block_forward training keep b x =
     (case linear_forward (blk_linear b) x of
        Inl e \<Rightarrow> (Inl e, b)
      | Inr y \<Rightarrow>
          (case batchnorm_forward training (blk_bn b) (relu y) of
             (Inl e, bn') \<Rightarrow> (Inl e, b\<lparr>blk_bn := bn'\<rparr>)
           | (Inr z, bn') \<Rightarrow> (Inr (dropout_forward training keep z), b\<lparr>blk_bn := bn'\<rparr>)))"

text \<open>
  \<open>nn.Sequential\<close> over the hidden blocks: the layers run in order, and a raise stops the
  run with the state changes made so far.  \<open>rnd k\<close> is the dropout sample of block \<open>k\<close>.
\<close>

fun blocks_forward ::
  "bool \<Rightarrow> dropout_sample \<Rightarrow> nat \<Rightarrow> block list \<Rightarrow> tensor \<Rightarrow> (error + tensor) \<times> block list" where
  "blocks_forward training rnd k [] x = (Inr x, [])"
| "blocks_forward training rnd k (b # bs) x =
     (case block_forward training (rnd k) b x of
        (Inl e, b') \<Rightarrow> (Inl e, b' # bs)
      | (Inr y, b') \<Rightarrow>
          (case blocks_forward training rnd (Suc k) bs y of
             (r, bs') \<Rightarrow> (r, b' # bs')))"

text \<open>\<open>TasteNet.forward\<close>: \<open>self.network(x)\<close>.\<close>

definition tastenet_forward ::
  "bool \<Rightarrow> dropout_sample \<Rightarrow> TasteNet \<Rightarrow> tensor \<Rightarrow> (error + tensor) \<times> TasteNet" where
  "tastenet_forward training rnd tn x =
     (case blocks_forward training rnd 0 (hidden tn) x of
        (Inl e, bs') \<Rightarrow> (Inl e, tn\<lparr>hidden := bs'\<rparr>)
      | (Inr y, bs') \<Rightarrow> (linear_forward (out_linear tn) y, tn\<lparr>hidden := bs'\<rparr>))"

text \<open>
  The shapes \<open>TasteNet(input_dim, hidden_dims, output_dim)\<close> constructs: every \<open>Linear\<close>
  maps the previous width to the next one, every \<open>BatchNorm1d\<close> has the width of its block.
\<close>

fun blocks_shaped :: "nat \<Rightarrow> nat list \<Rightarrow> block list \<Rightarrow> bool" where
  "blocks_shaped prev_dim [] [] = True"
| "blocks_shaped prev_dim (hidden_dim # ds) (b # bs) =
     (ncols (weight (blk_linear b)) = prev_dim \<and> nrows (weight (blk_linear b)) = hidden_dim
      \<and> num_features (blk_bn b) = hidden_dim \<and> blocks_shaped hidden_dim ds bs)"
| "blocks_shaped prev_dim _ _ = False"

definition tastenet_shaped :: "nat \<Rightarrow> nat list \<Rightarrow> nat \<Rightarrow> TasteNet \<Rightarrow> bool" where
  "tastenet_shaped input_dim hidden_dims output_dim tn =
     (blocks_shaped input_dim hidden_dims (hidden tn)
      \<and> ncols (weight (out_linear tn)) = last (input_dim # hidden_dims)
      \<and> nrows (weight (out_linear tn)) = output_dim)"

subsection \<open>TasteNetMNL\<close>

text \<open>
  The module: its attribute \<open>n_alternatives\<close>, the parameters \<open>beta\<close> and \<open>delta\<close>, the
  TasteNet, and the mode flag that \<open>model.train()\<close> and \<open>model.eval()\<close> set.
\<close>

record TasteNetMNL =
  n_alternatives :: nat
  beta :: tensor
  delta :: tensor
  tastenet :: TasteNet
  training :: bool

text \<open>
  What \<open>TasteNetMNL.__init__(n_alternatives, x_dim, z_dim, tastenet_hidden)\<close> fixes: the
  shapes of the parameters.  \<open>torch.randn(x_dim, n_alternatives - 1)\<close> raises for
  \<open>n_alternatives = 0\<close>, so a constructed model has at least one alternative.
\<close>

definition model_shaped :: "nat \<Rightarrow> nat \<Rightarrow> nat list \<Rightarrow> TasteNetMNL \<Rightarrow> bool" where
  "model_shaped x_dim z_dim tastenet_hidden m =
     (1 \<le> n_alternatives m
      \<and> nrows (beta m) = x_dim \<and> ncols (beta m) = n_alternatives m - 1
      \<and> nrows (delta m) = z_dim \<and> ncols (delta m) = n_alternatives m - 1
      \<and> tastenet_shaped x_dim tastenet_hidden 1 (tastenet m))"

definition train_mode :: "TasteNetMNL \<Rightarrow> TasteNetMNL" where
  "train_mode m = m\<lparr>training := True\<rparr>"

definition eval_mode :: "TasteNetMNL \<Rightarrow> TasteNetMNL" where
  "eval_mode m = m\<lparr>training := False\<rparr>"

text \<open>The locals of \<open>TasteNetMNL.forward\<close>, in the order of the source.\<close>

definition base_utility :: "TasteNetMNL \<Rightarrow> tensor \<Rightarrow> error + tensor" where
  "base_utility m X =
     (let batch_size = nrows X in
      bind_err (matmul X (beta m)) (\<lambda>V_base. cat1 (zeros batch_size 1) V_base))"

definition infra_utility :: "TasteNetMNL \<Rightarrow> tensor \<Rightarrow> tensor \<Rightarrow> error + tensor" where
  "infra_utility m X Z =
     (let batch_size = nrows X in
      bind_err (matmul Z (delta m)) (\<lambda>V_infra. cat1 (zeros batch_size 1) V_infra))"

definition credit_utility :: "tensor \<Rightarrow> tensor \<Rightarrow> tensor \<Rightarrow> error + tensor" where
  "credit_utility gamma_i credit_access se_indicator =
     bind_err (tmul gamma_i credit_access) (\<lambda>gc. tmul gc se_indicator)"

definition total_utility :: "tensor \<Rightarrow> tensor \<Rightarrow> tensor \<Rightarrow> error + tensor" where
  "total_utility V_base V_infra V_credit =
     bind_err (tadd V_base V_infra) (\<lambda>v. tadd v V_credit)"

text \<open>
  The utilities \<open>V\<close> and \<open>gamma_i\<close>, that is \<open>forward\<close> up to its last statement.  The
  result carries the module after the call: in training mode the TasteNet's batch
  normalisation has moved its running statistics.
\<close>

definition utility ::
  "TasteNetMNL \<Rightarrow> dropout_sample \<Rightarrow> tensor \<Rightarrow> tensor \<Rightarrow> tensor \<Rightarrow> tensor
     \<Rightarrow> (error + tensor \<times> tensor) \<times> TasteNetMNL" where
  "utility m rnd X Z credit_access se_indicator =
     (case base_utility m X of
        Inl e \<Rightarrow> (Inl e, m)
      | Inr V_base \<Rightarrow>
     (case infra_utility m X Z of
        Inl e \<Rightarrow> (Inl e, m)
      | Inr V_infra \<Rightarrow>
     (case tastenet_forward (training m) rnd (tastenet m) X of
        (Inl e, tn') \<Rightarrow> (Inl e, m\<lparr>tastenet := tn'\<rparr>)
      | (Inr gamma_i, tn') \<Rightarrow>
          (bind_err (credit_utility gamma_i credit_access se_indicator) (\<lambda>V_credit.
           bind_err (total_utility V_base V_infra V_credit) (\<lambda>V.
           Inr (V, gamma_i))),
           m\<lparr>tastenet := tn'\<rparr>))))"

text \<open>\<open>TasteNetMNL.forward\<close>: returns \<open>(log_probs, gamma_i)\<close>.\<close>

definition forward ::
  "TasteNetMNL \<Rightarrow> dropout_sample \<Rightarrow> tensor \<Rightarrow> tensor \<Rightarrow> tensor \<Rightarrow> tensor
     \<Rightarrow> (error + tensor \<times> tensor) \<times> TasteNetMNL" where
  "forward m rnd X Z credit_access se_indicator =
     (case utility m rnd X Z credit_access se_indicator of
        (Inl e, m') \<Rightarrow> (Inl e, m')
      | (Inr (V, gamma_i), m') \<Rightarrow> (Inr (log_softmax V, gamma_i), m'))"

text \<open>\<open>TasteNetMNL.predict_proba\<close>: the exponentials of the log-probabilities.\<close>

definition predict_proba ::
  "TasteNetMNL \<Rightarrow> dropout_sample \<Rightarrow> tensor \<Rightarrow> tensor \<Rightarrow> tensor \<Rightarrow> tensor
     \<Rightarrow> (error + tensor) \<times> TasteNetMNL" where
  "predict_proba m rnd X Z credit_access se_indicator =
     (case forward m rnd X Z credit_access se_indicator of
        (Inl e, m') \<Rightarrow> (Inl e, m')
      | (Inr (log_probs, _), m') \<Rightarrow> (Inr (texp log_probs), m'))"


subsection \<open>Python floats\<close>

text \<open>
  The scalars the program handles as Python floats (what \<open>.item()\<close> returns, and
  \<open>float('inf')\<close>): a real number, an infinity or \<open>nan\<close>.  Every comparison with \<open>nan\<close> is
  false, and a division by zero raises \<open>ZeroDivisionError\<close>.
\<close>

datatype pyfloat = Num real | PInf | NInf | NaN

fun py_neg :: "pyfloat \<Rightarrow> pyfloat" where
  "py_neg (Num a) = Num (- a)"
| "py_neg PInf = NInf"
| "py_neg NInf = PInf"
| "py_neg NaN = NaN"

fun py_add :: "pyfloat \<Rightarrow> pyfloat \<Rightarrow> pyfloat" where
  "py_add NaN _ = NaN"
| "py_add _ NaN = NaN"
| "py_add (Num a) (Num b) = Num (a + b)"
| "py_add PInf NInf = NaN"
| "py_add NInf PInf = NaN"
| "py_add PInf _ = PInf"
| "py_add _ PInf = PInf"
| "py_add NInf _ = NInf"
| "py_add _ NInf = NInf"

definition py_sub :: "pyfloat \<Rightarrow> pyfloat \<Rightarrow> pyfloat" where
  "py_sub a b = py_add a (py_neg b)"

fun py_mul :: "pyfloat \<Rightarrow> pyfloat \<Rightarrow> pyfloat" where
  "py_mul NaN _ = NaN"
| "py_mul _ NaN = NaN"
| "py_mul (Num a) (Num b) = Num (a * b)"
| "py_mul PInf (Num b) = (if b = 0 then NaN else if 0 < b then PInf else NInf)"
| "py_mul NInf (Num b) = (if b = 0 then NaN else if 0 < b then NInf else PInf)"
| "py_mul (Num a) PInf = (if a = 0 then NaN else if 0 < a then PInf else NInf)"
| "py_mul (Num a) NInf = (if a = 0 then NaN else if 0 < a then NInf else PInf)"
| "py_mul PInf PInf = PInf"
| "py_mul NInf NInf = PInf"
| "py_mul PInf NInf = NInf"
| "py_mul NInf PInf = NInf"

fun py_quot :: "pyfloat \<Rightarrow> pyfloat \<Rightarrow> pyfloat" where
  "py_quot NaN _ = NaN"
| "py_quot _ NaN = NaN"
| "py_quot (Num a) (Num b) = Num (a / b)"
| "py_quot (Num a) _ = Num 0"
| "py_quot PInf (Num b) = (if 0 < b then PInf else NInf)"
| "py_quot NInf (Num b) = (if 0 < b then NInf else PInf)"
| "py_quot _ _ = NaN"

text \<open>\<open>a / b\<close>: the divisor zero raises, whatever the dividend.\<close>

definition py_truediv :: "pyfloat \<Rightarrow> pyfloat \<Rightarrow> error + pyfloat" where
  "py_truediv a b = (if b = Num 0 then Inl ZeroDivisionError else Inr (py_quot a b))"

fun py_less :: "pyfloat \<Rightarrow> pyfloat \<Rightarrow> bool" where
  "py_less (Num a) (Num b) = (a < b)"
| "py_less (Num a) PInf = True"
| "py_less NInf (Num b) = True"
| "py_less NInf PInf = True"
| "py_less _ _ = False"

text \<open>\<open>t.mean().item()\<close> over the elements \<open>xs\<close>: \<open>nan\<close> when there is no element.\<close>

definition tensor_mean :: "real list \<Rightarrow> pyfloat" where
  "tensor_mean xs = (if xs = [] then NaN else Num (sum_list xs / real (length xs)))"

subsection \<open>The training loop\<close>

text \<open>
  \<open>nn.NLLLoss()\<close> applied to the log-probabilities and the class indices \<open>y\<close>, then
  \<open>.item()\<close>: the batch sizes must agree, every class index must be a column, and the loss
  is the mean of the negated log-probabilities of the observed classes.
\<close>

definition nll_loss :: "tensor \<Rightarrow> nat list \<Rightarrow> error + pyfloat" where
  "nll_loss log_probs y =
     (if length y \<noteq> nrows log_probs then Inl ValueError
      else if list_ex (\<lambda>c. ncols log_probs \<le> c) y then Inl IndexError
      else Inr (tensor_mean (map (\<lambda>i. - entry log_probs i (y ! i)) [0..<length y])))"

text \<open>One element of a loader: \<open>X, Z, credit, se_ind, y\<close>.\<close>

record batch =
  b_X :: tensor
  b_Z :: tensor
  b_credit :: tensor
  b_se_ind :: tensor
  b_y :: "nat list"

text \<open>
  The optimiser and the scheduler belong to the library and differentiate the model; they
  are parameters of the embedding.  \<open>opt_init\<close> is \<open>optim.Adam(model.parameters(), lr, ...)\<close>
  with its \<open>ReduceLROnPlateau\<close>; \<open>opt_step\<close> is \<open>loss.backward(); optimizer.step()\<close> after the
  forward pass of a batch under a dropout sample, and returns the module with its new
  parameters; \<open>sched_step\<close> is \<open>scheduler.step(val_loss)\<close>.
\<close>

record 'o optim =
  opt_init :: "TasteNetMNL \<Rightarrow> real \<Rightarrow> 'o"
  opt_step :: "'o \<Rightarrow> TasteNetMNL \<Rightarrow> dropout_sample \<Rightarrow> batch \<Rightarrow> 'o \<times> TasteNetMNL"
  sched_step :: "'o \<Rightarrow> pyfloat \<Rightarrow> 'o"

text \<open>
  The variables of \<open>train_tastenet_mnl\<close>.  \<open>checkpoint\<close> is the content of the file
  \<open>best_tastenet_mnl.pt\<close> (\<open>None\<close>: no such file); \<open>draws\<close> counts the dropout samples
  taken from the random generator.  \<open>history\<close> is not a variable of the program: it
  records, for every epoch that ran to its end, the validation loss of the epoch and the
  module at the end of the epoch.
\<close>

record 'o train_state =
  model :: TasteNetMNL
  optimizer :: 'o
  best_val_loss :: pyfloat
  patience_counter :: nat
  checkpoint :: "TasteNetMNL option"
  draws :: nat
  history :: "(pyfloat \<times> TasteNetMNL) list"

text \<open>The loop over \<open>train_loader\<close>.\<close>

fun train_batches ::
  "'o optim \<Rightarrow> (nat \<Rightarrow> dropout_sample) \<Rightarrow> batch list \<Rightarrow> 'o train_state \<Rightarrow> pyfloat
     \<Rightarrow> error + 'o train_state \<times> pyfloat" where
  "train_batches opt rng [] st train_loss = Inr (st, train_loss)"
| "train_batches opt rng (b # bs) st train_loss =
     (case forward (model st) (rng (draws st)) (b_X b) (b_Z b) (b_credit b) (b_se_ind b) of
        (Inl e, m1) \<Rightarrow> Inl e
      | (Inr (log_probs, _), m1) \<Rightarrow>
          (case nll_loss log_probs (b_y b) of
             Inl e \<Rightarrow> Inl e
           | Inr loss \<Rightarrow>
               (case opt_step opt (optimizer st) m1 (rng (draws st)) b of
                  (opt', m2) \<Rightarrow>
                    train_batches opt rng bs
                      (st\<lparr>model := m2, optimizer := opt', draws := Suc (draws st)\<rparr>)
                      (py_add train_loss loss))))"

text \<open>The loop over \<open>val_loader\<close>, under \<open>torch.no_grad()\<close>.\<close>

fun val_batches ::
  "(nat \<Rightarrow> dropout_sample) \<Rightarrow> batch list \<Rightarrow> 'o train_state \<Rightarrow> pyfloat
     \<Rightarrow> error + 'o train_state \<times> pyfloat" where
  "val_batches rng [] st val_loss = Inr (st, val_loss)"
| "val_batches rng (b # bs) st val_loss =
     (case forward (model st) (rng (draws st)) (b_X b) (b_Z b) (b_credit b) (b_se_ind b) of
        (Inl e, m1) \<Rightarrow> Inl e
      | (Inr (log_probs, _), m1) \<Rightarrow>
          (case nll_loss log_probs (b_y b) of
             Inl e \<Rightarrow> Inl e
           | Inr loss \<Rightarrow> val_batches rng bs (st\<lparr>model := m1\<rparr>) (py_add val_loss loss)))"

text \<open>The training half of the body of the epoch loop: \<open>model.train()\<close> and the loop.\<close>

definition train_pass ::
  "'o optim \<Rightarrow> (nat \<Rightarrow> dropout_sample) \<Rightarrow> batch list \<Rightarrow> 'o train_state
     \<Rightarrow> error + 'o train_state \<times> pyfloat" where
  "train_pass opt rng train_loader st =
     train_batches opt rng train_loader (st\<lparr>model := train_mode (model st)\<rparr>) (Num 0)"

text \<open>The validation half: \<open>model.eval()\<close> and the loop.\<close>

definition val_pass ::
  "(nat \<Rightarrow> dropout_sample) \<Rightarrow> batch list \<Rightarrow> 'o train_state \<Rightarrow> error + 'o train_state \<times> pyfloat" where
  "val_pass rng val_loader st =
     val_batches rng val_loader (st\<lparr>model := eval_mode (model st)\<rparr>) (Num 0)"

text \<open>
  The early-stopping decision at the end of an epoch; the boolean says whether the loop
  breaks.  \<open>torch.save(model.state_dict(), ...)\<close> writes the module to the file.
\<close>

definition early_stopping :: "'o train_state \<Rightarrow> pyfloat \<Rightarrow> 'o train_state \<times> bool" where
  "early_stopping st val_loss =
     (if py_less val_loss (best_val_loss st)
      then (st\<lparr>best_val_loss := val_loss, patience_counter := 0,
                checkpoint := Some (model st)\<rparr>, False)
      else (st\<lparr>patience_counter := patience_counter st + 1\<rparr>,
            20 \<le> patience_counter st + 1))"

text \<open>The body of the epoch loop.\<close>

definition epoch_step ::
  "'o optim \<Rightarrow> (nat \<Rightarrow> dropout_sample) \<Rightarrow> batch list \<Rightarrow> batch list \<Rightarrow> 'o train_state
     \<Rightarrow> error + 'o train_state \<times> bool" where
  "epoch_step opt rng train_loader val_loader st =
     bind_err (train_pass opt rng train_loader st) (\<lambda>(st1, train_loss).
     bind_err (val_pass rng val_loader st1) (\<lambda>(st2, val_loss).
     bind_err (py_truediv train_loss (Num (real (length train_loader)))) (\<lambda>train_loss.
     bind_err (py_truediv val_loss (Num (real (length val_loader)))) (\<lambda>val_loss.
     Inr (early_stopping
            (st2\<lparr>optimizer := sched_step opt (optimizer st2) val_loss,
                 history := history st2 @ [(val_loss, model st2)]\<rparr>)
            val_loss)))))"

text \<open>\<open>for epoch in range(epochs)\<close>, with its \<open>break\<close>; the number counts the epochs left.\<close>

fun epochs_loop ::
  "'o optim \<Rightarrow> (nat \<Rightarrow> dropout_sample) \<Rightarrow> batch list \<Rightarrow> batch list \<Rightarrow> nat \<Rightarrow> 'o train_state
     \<Rightarrow> error + 'o train_state" where
  "epochs_loop opt rng train_loader val_loader 0 st = Inr st"
| "epochs_loop opt rng train_loader val_loader (Suc n) st =
     (case epoch_step opt rng train_loader val_loader st of
        Inl e \<Rightarrow> Inl e
      | Inr (st', stop) \<Rightarrow>
          if stop then Inr st' else epochs_loop opt rng train_loader val_loader n st')"

text \<open>
  \<open>model.load_state_dict(sd)\<close>: the parameters and buffers of \<open>sd\<close> replace those of the
  module, whose shapes they must have; the attributes of the module that are not in the
  state dictionary stay.
\<close>

definition block_shape :: "block \<Rightarrow> nat \<times> nat \<times> nat" where
  "block_shape b = (nrows (weight (blk_linear b)), ncols (weight (blk_linear b)), num_features (blk_bn b))"

definition same_shapes :: "TasteNetMNL \<Rightarrow> TasteNetMNL \<Rightarrow> bool" where
  "same_shapes m sd =
     (nrows (beta m) = nrows (beta sd) \<and> ncols (beta m) = ncols (beta sd)
      \<and> nrows (delta m) = nrows (delta sd) \<and> ncols (delta m) = ncols (delta sd)
      \<and> map block_shape (hidden (tastenet m)) = map block_shape (hidden (tastenet sd))
      \<and> nrows (weight (out_linear (tastenet m))) = nrows (weight (out_linear (tastenet sd)))
      \<and> ncols (weight (out_linear (tastenet m))) = ncols (weight (out_linear (tastenet sd))))"

definition load_state_dict :: "TasteNetMNL \<Rightarrow> TasteNetMNL \<Rightarrow> error + TasteNetMNL" where
  "load_state_dict m sd =
     (if same_shapes m sd
      then Inr (sd\<lparr>n_alternatives := n_alternatives m, training := training m\<rparr>)
      else Inl ShapeError)"

text \<open>
  \<open>train_tastenet_mnl(model, train_loader, val_loader, epochs, lr)\<close>.  \<open>file\<close> is the
  content of \<open>best_tastenet_mnl.pt\<close> when the function is called.  The result is the
  returned module, together with the final values of the variables.
\<close>

definition train_tastenet_mnl ::
  "'o optim \<Rightarrow> (nat \<Rightarrow> dropout_sample) \<Rightarrow> TasteNetMNL option \<Rightarrow> TasteNetMNL \<Rightarrow> batch list \<Rightarrow> batch list
     \<Rightarrow> nat \<Rightarrow> real \<Rightarrow> error + TasteNetMNL \<times> 'o train_state" where
  "train_tastenet_mnl opt rng file m train_loader val_loader epochs lr =
     (case epochs_loop opt rng train_loader val_loader epochs
             \<lparr>model = m, optimizer = opt_init opt m lr, best_val_loss = PInf,
              patience_counter = 0, checkpoint = file, draws = 0, history = []\<rparr> of
        Inl e \<Rightarrow> Inl e
      | Inr st \<Rightarrow>
          (case checkpoint st of
             None \<Rightarrow> Inl FileNotFoundError
           | Some sd \<Rightarrow>
               (case load_state_dict (model st) sd of
                  Inl e \<Rightarrow> Inl e
                | Inr m' \<Rightarrow> Inr (m', st))))"

subsection \<open>Counterfactual analysis\<close>

text \<open>
  The tensors of the caller live in a store: \<open>counterfactual_analysis\<close> receives
  references, clones one tensor and updates the clone in place.
\<close>

record heap =
  cells :: "nat \<Rightarrow> tensor"
  next_free :: nat

text \<open>\<open>t.clone()\<close>: a new tensor with the same shape and entries.\<close>

definition clone :: "heap \<Rightarrow> nat \<Rightarrow> heap \<times> nat" where
  "clone h a =
     (h\<lparr>cells := (cells h)(next_free h := cells h a), next_free := Suc (next_free h)\<rparr>,
      next_free h)"

text \<open>
  \<open>t[:, idx] *= k\<close> on the tensor at \<open>a\<close>: an index beyond the last column raises;
  otherwise the listed columns of that tensor are multiplied by \<open>k\<close>, in place.
  \<open>scaled t idx k\<close> is the tensor after the update.
\<close>

definition scaled :: "tensor \<Rightarrow> nat list \<Rightarrow> real \<Rightarrow> tensor" where
  "scaled t idx k =
     t\<lparr>entry := (\<lambda>i j. if List.member idx j then entry t i j * k else entry t i j)\<rparr>"

definition scale_columns :: "heap \<Rightarrow> nat \<Rightarrow> nat list \<Rightarrow> real \<Rightarrow> error + heap" where
  "scale_columns h a idx k =
     (if list_ex (\<lambda>j. ncols (cells h a) \<le> j) idx then Inl IndexError
      else Inr (h\<lparr>cells := (cells h)(a := scaled (cells h a) idx k)\<rparr>))"

definition se_alts :: "nat list" where
  "se_alts = [1, 4, 7]"

definition branch_alts :: "nat list" where
  "branch_alts = [6, 7, 8]"

text \<open>\<open>probs[:, se_alts].sum(dim=1).mean().item()\<close>.\<close>

definition se_rate :: "tensor \<Rightarrow> error + pyfloat" where
  "se_rate probs =
     (if list_ex (\<lambda>j. ncols probs \<le> j) se_alts then Inl IndexError
      else Inr (tensor_mean (map (\<lambda>i. sum_list (map (entry probs i) se_alts)) [0..<nrows probs])))"

text \<open>\<open>(se_rate_cf - se_rate_base) / se_rate_base * 100\<close>.\<close>

definition percent_change :: "pyfloat \<Rightarrow> pyfloat \<Rightarrow> error + pyfloat" where
  "percent_change se_rate_base se_rate_cf =
     bind_err (py_truediv (py_sub se_rate_cf se_rate_base) se_rate_base)
       (\<lambda>q. Inr (py_mul q (Num 100)))"

text \<open>
  \<open>counterfactual_analysis(model, X, Z, credit_access, se_indicator, closure_rate)\<close>; the
  four tensors are given by their references.  The result also carries the module and
  the store as the call leaves them.
\<close>

definition counterfactual_analysis ::
  "TasteNetMNL \<Rightarrow> dropout_sample \<Rightarrow> heap \<Rightarrow> nat \<Rightarrow> nat \<Rightarrow> nat \<Rightarrow> nat \<Rightarrow> real
     \<Rightarrow> (error + pyfloat \<times> pyfloat \<times> pyfloat) \<times> TasteNetMNL \<times> heap" where
  "counterfactual_analysis m rnd h X Z credit_access se_indicator closure_rate =
     (let m0 = eval_mode m in
      case predict_proba m0 rnd (cells h X) (cells h Z) (cells h credit_access) (cells h se_indicator) of
        (Inl e, m1) \<Rightarrow> (Inl e, m1, h)
      | (Inr probs_base, m1) \<Rightarrow>
     (case se_rate probs_base of
        Inl e \<Rightarrow> (Inl e, m1, h)
      | Inr se_rate_base \<Rightarrow>
     (case clone h credit_access of
        (h1, credit_cf) \<Rightarrow>
     (case scale_columns h1 credit_cf branch_alts (1 - closure_rate) of
        Inl e \<Rightarrow> (Inl e, m1, h1)
      | Inr h2 \<Rightarrow>
     (case predict_proba m1 rnd (cells h2 X) (cells h2 Z) (cells h2 credit_cf) (cells h2 se_indicator) of
        (Inl e, m2) \<Rightarrow> (Inl e, m2, h2)
      | (Inr probs_cf, m2) \<Rightarrow>
     (case se_rate probs_cf of
        Inl e \<Rightarrow> (Inl e, m2, h2)
      | Inr se_rate_cf \<Rightarrow>
     (case percent_change se_rate_base se_rate_cf of
        Inl e \<Rightarrow> (Inl e, m2, h2)
      | Inr effect \<Rightarrow> (Inr (se_rate_base, se_rate_cf, effect), m2, h2))))))))"

subsection \<open>Concrete inputs\<close>

text \<open>\<open>torch.full((r, c), v)\<close>.\<close>

definition full :: "nat \<Rightarrow> nat \<Rightarrow> real \<Rightarrow> tensor" where
  "full r c v = \<lparr>nrows = r, ncols = c, entry = (\<lambda>i j. v)\<rparr>"

text \<open>
  \<open>TasteNet(1, hidden_dims=[1])\<close> with parameters chosen so that \<open>gamma\<close> is 1 for every
  individual in evaluation mode, and \<open>TasteNetMNL(2, 1, 1, tastenet_hidden=[1])\<close> around it
  with \<open>beta\<close> and \<open>delta\<close> zero.
\<close>

definition ex_net :: TasteNet where
  "ex_net =
     \<lparr>hidden = [\<lparr>blk_linear = \<lparr>weight = full 1 1 1, bias = (\<lambda>j. 0)\<rparr>,
                  blk_bn = \<lparr>num_features = 1, bn_weight = (\<lambda>j. 0), bn_bias = (\<lambda>j. 1),
                            running_mean = (\<lambda>j. 0), running_var = (\<lambda>j. 1),
                            num_batches_tracked = 0\<rparr>\<rparr>],
      out_linear = \<lparr>weight = full 1 1 1, bias = (\<lambda>j. 0)\<rparr>\<rparr>"

definition ex_model :: TasteNetMNL where
  "ex_model = \<lparr>n_alternatives = 2, beta = full 1 1 0, delta = full 1 1 0,
               tastenet = ex_net, training = False\<rparr>"

text \<open>A dropout sample that keeps every entry.\<close>

definition no_drop :: dropout_sample where
  "no_drop k i j = True"

text \<open>Two individuals, two alternatives, the second one flagged self-employment.\<close>

definition ex_se :: tensor where
  "ex_se = \<lparr>nrows = 2, ncols = 2, entry = (\<lambda>i j. if j = 1 then 1 else 0)\<rparr>"

text \<open>
  The synthetic tensors of the main script for \<open>n\<close> individuals and nine alternatives:
  credit access 1.0 for the branch alternatives 6 to 8, 0.3 for the mobile alternatives
  3 to 5 and 0 for the others; the self-employment alternatives are 1, 4 and 7.
\<close>

definition synthetic_credit :: "nat \<Rightarrow> tensor" where
  "synthetic_credit n =
     \<lparr>nrows = n, ncols = 9,
      entry = (\<lambda>i j. if 6 \<le> j \<and> j < 9 then 1 else if 3 \<le> j \<and> j < 6 then 3 / 10 else 0)\<rparr>"

definition synthetic_se :: "nat \<Rightarrow> tensor" where
  "synthetic_se n =
     \<lparr>nrows = n, ncols = 9, entry = (\<lambda>i j. if j = 1 \<or> j = 4 \<or> j = 7 then 1 else 0)\<rparr>"

text \<open>
  A store that holds the four input tensors \<open>X, Z, credit_access, se_indicator\<close> at the
  references 0 to 3.
\<close>

definition store4 :: "tensor \<Rightarrow> tensor \<Rightarrow> tensor \<Rightarrow> tensor \<Rightarrow> heap" where
  "store4 X Z credit_access se_indicator =
     \<lparr>cells = (\<lambda>a. if a = 0 then X else if a = 1 then Z else if a = 2 then credit_access
                    else se_indicator),
      next_free = 4\<rparr>"

text \<open>
  \<open>TasteNetMNL(9, 1, 1, tastenet_hidden=[1])\<close> around the TasteNet above (\<open>gamma\<close> is 1),
  in training mode, as the training loop leaves a module when it breaks off.
\<close>

definition ex_model9 :: TasteNetMNL where
  "ex_model9 = \<lparr>n_alternatives = 9, beta = full 1 8 0, delta = full 1 8 0,
                tastenet = ex_net, training = True\<rparr>"

text \<open>The synthetic tensors for two individuals with one demographic and one infrastructure feature.\<close>

definition ex_store :: heap where
  "ex_store = store4 (full 2 1 1) (full 2 1 1) (synthetic_credit 2) (synthetic_se 2)"



text \<open>
  \<open>TasteNetMNL(2, 1, 1, tastenet_hidden=[])\<close> with every parameter zero; a batch of two
  individuals whose \<open>se_indicator\<close> is zero, with the observed choices 0 and 1; and an
  optimiser whose step adds 1 to the bias of the TasteNet's output layer.
\<close>

definition plain_model :: TasteNetMNL where
  "plain_model =
     \<lparr>n_alternatives = 2, beta = full 1 1 0, delta = full 1 1 0,
      tastenet = \<lparr>hidden = [], out_linear = \<lparr>weight = full 1 1 0, bias = (\<lambda>j. 0)\<rparr>\<rparr>,
      training = False\<rparr>"

definition ex_batch :: batch where
  "ex_batch = \<lparr>b_X = full 2 1 1, b_Z = full 2 1 1, b_credit = full 2 2 1,
               b_se_ind = full 2 2 0, b_y = [0, 1]\<rparr>"

definition bump_bias :: "TasteNetMNL \<Rightarrow> TasteNetMNL" where
  "bump_bias m =
     m\<lparr>tastenet := (tastenet m)\<lparr>out_linear :=
          (out_linear (tastenet m))\<lparr>bias := (\<lambda>j. bias (out_linear (tastenet m)) j + 1)\<rparr>\<rparr>\<rparr>"

definition ex_opt :: "unit optim" where
  "ex_opt = \<lparr>opt_init = (\<lambda>m lr. ()), opt_step = (\<lambda>opt m rnd b. (opt, bump_bias m)),
             sched_step = (\<lambda>opt val_loss. opt)\<rparr>"

text \<open>A checkpoint file left by an earlier run: the zero model with another \<open>beta\<close>.\<close>

definition stale_checkpoint :: TasteNetMNL where
  "stale_checkpoint = plain_model\<lparr>beta := full 1 1 5\<rparr>"

subsection \<open>The invariant of the epoch loop\<close>

text \<open>
  Between two epochs: every recorded validation loss is a number or \<open>nan\<close>; the module is
  the one recorded last; and either no recorded loss is a number, the best loss is still
  infinite and the file is as it was at the call, or the best loss is the loss of a
  recorded epoch \<open>k\<close>, the file holds the module of that epoch, no recorded loss is
  smaller, and every earlier one is larger.
\<close>

definition checkpoint_inv :: "TasteNetMNL option \<Rightarrow> 'o train_state \<Rightarrow> bool" where
  "checkpoint_inv file st \<longleftrightarrow>
     (\<forall>j<length (history st). fst (history st ! j) \<noteq> PInf \<and> fst (history st ! j) \<noteq> NInf)
     \<and> (history st \<noteq> [] \<longrightarrow> model st = snd (last (history st)))
     \<and> ((best_val_loss st = PInf \<and> checkpoint st = file
          \<and> (\<forall>j<length (history st). fst (history st ! j) = NaN))
        \<or> (\<exists>k<length (history st). \<exists>v.
              best_val_loss st = Num v \<and> fst (history st ! k) = Num v
              \<and> checkpoint st = Some (snd (history st ! k))
              \<and> (\<forall>j<length (history st). \<forall>u. fst (history st ! j) = Num u \<longrightarrow> v \<le> u)
              \<and> (\<forall>j<k. \<forall>u. fst (history st ! j) = Num u \<longrightarrow> v < u)))"

section \<open>Properties\<close>

subsection \<open>Tensor operations\<close>

lemma bind_err_Inr_iff: "bind_err r f = Inr y \<longleftrightarrow> (\<exists>x. r = Inr x \<and> f x = Inr y)"
  by (cases r) (simp_all add: bind_err_def)

lemma matmul_Inr:
  "matmul A B = Inr C \<longleftrightarrow>
     ncols A = nrows B \<and> C = \<lparr>nrows = nrows A, ncols = ncols B,
                entry = (\<lambda>i j. \<Sum>k<ncols A. entry A i k * entry B k j)\<rparr>"
  by (auto simp: matmul_def)

lemma cat1_Inr:
  "cat1 A B = Inr C \<longleftrightarrow>
     nrows A = nrows B \<and> C = \<lparr>nrows = nrows A, ncols = ncols A + ncols B,
                entry = (\<lambda>i j. if j < ncols A then entry A i j else entry B i (j - ncols A))\<rparr>"
  by (auto simp: cat1_def)

lemma broadcast2_Inr:
  "broadcast2 f A B = Inr C \<longleftrightarrow>
     (\<exists>r c. bdim (nrows A) (nrows B) = Some r \<and> bdim (ncols A) (ncols B) = Some c \<and>
       C = \<lparr>nrows = r, ncols = c, entry = (\<lambda>i j. f (bget A i j) (bget B i j))\<rparr>)"
  by (auto simp: broadcast2_def split: option.splits)



lemma base_utility_Inr:
  "base_utility m X = Inr V \<Longrightarrow>
     ncols X = nrows (beta m) \<and> nrows V = nrows X \<and> ncols V = Suc (ncols (beta m)) \<and> (\<forall>i. entry V i 0 = 0)
     \<and> (\<forall>i j. entry V i (Suc j) = (\<Sum>k<ncols X. entry X i k * entry (beta m) k j))"
  by (auto simp: base_utility_def bind_err_Inr_iff matmul_Inr cat1_Inr zeros_def)

lemma infra_utility_Inr:
  "infra_utility m X Z = Inr V \<Longrightarrow>
     ncols Z = nrows (delta m) \<and> nrows Z = nrows X \<and> nrows V = nrows X \<and> ncols V = Suc (ncols (delta m)) \<and> (\<forall>i. entry V i 0 = 0)
     \<and> (\<forall>i j. entry V i (Suc j) = (\<Sum>k<ncols Z. entry Z i k * entry (delta m) k j))"
  by (auto simp: infra_utility_def bind_err_Inr_iff matmul_Inr cat1_Inr zeros_def)


lemma linear_forward_Inr:
  "linear_forward L x = Inr y \<longleftrightarrow>
     ncols x = ncols (weight L) \<and>
     y = \<lparr>nrows = nrows x, ncols = nrows (weight L),
                entry = (\<lambda>i j. (\<Sum>k<ncols x. entry x i k * entry (weight L) j k) + bias L j)\<rparr>"
  by (auto simp: linear_forward_def)

lemma batchnorm_forward_shape:
  "batchnorm_forward tr bn x = (Inr y, bn') \<Longrightarrow> nrows y = nrows x \<and> ncols y = ncols x"
  by (auto simp: batchnorm_forward_def normalise_def Let_def split: if_splits)

lemma batchnorm_forward_eval: "batchnorm_forward False bn x = (r, bn') \<Longrightarrow> bn' = bn"
  by (auto simp: batchnorm_forward_def split: if_splits)

lemma dropout_forward_shape [simp]:
  "nrows (dropout_forward tr keep x) = nrows x" "ncols (dropout_forward tr keep x) = ncols x"
  by (simp_all add: dropout_forward_def)

lemma block_forward_shape:
  "block_forward tr keep b x = (Inr y, b') \<Longrightarrow>
     nrows y = nrows x \<and> ncols y = nrows (weight (blk_linear b))"
  by (auto simp: block_forward_def linear_forward_Inr relu_def
           split: sum.splits prod.splits dest!: batchnorm_forward_shape)

lemma block_forward_eval: "block_forward False keep b x = (r, b') \<Longrightarrow> b' = b"
  by (auto simp: block_forward_def split: sum.splits prod.splits dest!: batchnorm_forward_eval)

lemma dropout_forward_eval [simp]: "dropout_forward False keep x = x"
  by (simp add: dropout_forward_def)

lemma block_forward_eval_rnd: "block_forward False keep b x = block_forward False keep' b x"
  by (simp add: block_forward_def cong: sum.case_cong prod.case_cong)

lemma blocks_forward_nrows:
  "blocks_forward tr rnd k bs x = (Inr y, bs') \<Longrightarrow> nrows y = nrows x"
proof (induction bs arbitrary: k x bs')
  case Nil
  then show ?case by simp
next
  case (Cons b bs)
  then show ?case
    by (auto split: sum.splits prod.splits dest!: block_forward_shape)
qed

lemma blocks_forward_eval: "blocks_forward False rnd k bs x = (r, bs') \<Longrightarrow> bs' = bs"
proof (induction bs arbitrary: k x bs')
  case Nil
  then show ?case by simp
next
  case (Cons b bs)
  then show ?case
    by (auto split: sum.splits prod.splits dest!: block_forward_eval)
qed

lemma blocks_forward_eval_rnd:
  "blocks_forward False rnd k bs x = blocks_forward False rnd' k' bs x"
proof (induction bs arbitrary: k k' x)
  case Nil
  then show ?case by simp
next
  case (Cons b bs)
  have "block_forward False (rnd k) b x = block_forward False (rnd' k') b x"
    by (rule block_forward_eval_rnd)
  moreover have "blocks_forward False rnd (Suc k) bs y = blocks_forward False rnd' (Suc k') bs y" for y
    by (rule Cons.IH)
  ultimately show ?case
    by (simp cong: sum.case_cong prod.case_cong)
qed

lemma tastenet_forward_shape:
  "tastenet_forward tr rnd tn x = (Inr g, tn') \<Longrightarrow>
     nrows g = nrows x \<and> ncols g = nrows (weight (out_linear tn))"
  by (auto simp: tastenet_forward_def linear_forward_Inr split: sum.splits prod.splits
           dest!: blocks_forward_nrows)

lemma tastenet_forward_eval: "tastenet_forward False rnd tn x = (r, tn') \<Longrightarrow> tn' = tn"
  by (auto simp: tastenet_forward_def split: sum.splits prod.splits dest!: blocks_forward_eval)

lemma tastenet_forward_eval_rnd:
  "tastenet_forward False rnd tn x = tastenet_forward False rnd' tn x"
  using blocks_forward_eval_rnd [of rnd 0 "hidden tn" x rnd' 0]
  by (simp add: tastenet_forward_def)

lemma utility_Inr:
  "utility m rnd X Z ca se = (Inr (V, g), m') \<Longrightarrow>
     \<exists>Vb Vi tn' Vc. base_utility m X = Inr Vb \<and> infra_utility m X Z = Inr Vi
       \<and> tastenet_forward (training m) rnd (tastenet m) X = (Inr g, tn')
       \<and> m' = m\<lparr>tastenet := tn'\<rparr>
       \<and> credit_utility g ca se = Inr Vc \<and> total_utility Vb Vi Vc = Inr V"
  by (auto simp: utility_def bind_err_Inr_iff split: sum.splits prod.splits)


lemma credit_utility_Inr:
  "credit_utility g ca se = Inr Vc \<longleftrightarrow>
     (\<exists>r1 c1 r c. bdim (nrows g) (nrows ca) = Some r1 \<and> bdim (ncols g) (ncols ca) = Some c1
        \<and> bdim r1 (nrows se) = Some r \<and> bdim c1 (ncols se) = Some c
        \<and> Vc = \<lparr>nrows = r, ncols = c,
                 entry = (\<lambda>i j. bget g (bidx r1 i) (bidx c1 j) * bget ca (bidx r1 i) (bidx c1 j)
                               * bget se i j)\<rparr>)"
  by (auto simp: credit_utility_def tmul_def bind_err_Inr_iff broadcast2_Inr bget_def)

lemma total_utility_Inr:
  "total_utility Vb Vi Vc = Inr V \<longleftrightarrow>
     (\<exists>r1 c1 r c. bdim (nrows Vb) (nrows Vi) = Some r1 \<and> bdim (ncols Vb) (ncols Vi) = Some c1
        \<and> bdim r1 (nrows Vc) = Some r \<and> bdim c1 (ncols Vc) = Some c
        \<and> V = \<lparr>nrows = r, ncols = c,
                 entry = (\<lambda>i j. bget Vb (bidx r1 i) (bidx c1 j) + bget Vi (bidx r1 i) (bidx c1 j)
                               + bget Vc i j)\<rparr>)"
  by (auto simp: total_utility_def tadd_def bind_err_Inr_iff broadcast2_Inr bget_def)


lemma ex_model_shaped: "model_shaped 1 1 [1] ex_model"
  by (simp add: model_shaped_def tastenet_shaped_def ex_model_def ex_net_def full_def)

lemmas ex_defs = ex_model_def ex_net_def full_def no_drop_def
lemmas fwd_defs = forward_def utility_def base_utility_def infra_utility_def credit_utility_def
  total_utility_def tastenet_forward_def block_forward_def batchnorm_forward_def linear_forward_def
  relu_def normalise_def dropout_forward_def matmul_def cat1_def zeros_def tmul_def tadd_def
  broadcast2_def bdim_def bidx_def bget_def bind_err_def

lemma ex_utility:
  "utility ex_model no_drop (full 2 1 1) (full 2 1 1) (full 2 2 1) (full 2 2 1)
     = (Inr (\<lparr>nrows = 2, ncols = 2, entry = (\<lambda>i j. 1)\<rparr>, \<lparr>nrows = 2, ncols = 1, entry = (\<lambda>i j. 1)\<rparr>), ex_model)"
  by (simp add: fwd_defs ex_defs cong: if_cong)


lemma bdim_same [simp]: "bdim a a = Some a"
  by (simp add: bdim_def)

lemma bdim_one_left [simp]: "bdim (Suc 0) b = Some b"
  by (simp add: bdim_def)

lemma bdim_one_right [simp]: "bdim a (Suc 0) = Some a"
  by (auto simp: bdim_def)

lemma bdim_Some_cases: "bdim a b = Some c \<Longrightarrow> (a = b \<and> c = a) \<or> (a = 1 \<and> c = b) \<or> (b = 1 \<and> c = a)"
  by (auto simp: bdim_def split: if_splits)

lemma bdim_None_iff: "bdim a b = None \<longleftrightarrow> a \<noteq> b \<and> a \<noteq> 1 \<and> b \<noteq> 1"
  by (auto simp: bdim_def)


lemma bidx_lt [simp]: "i < d \<Longrightarrow> bidx d i = i"
  by (auto simp: bidx_def)

lemma bidx_one [simp]: "bidx (Suc 0) i = 0"
  by (simp add: bidx_def)

lemma utility_shapes:
  assumes u: "utility m rnd X Z ca se = (Inr (V, g), m')"
    and ms: "model_shaped x_dim z_dim hs m"
  obtains Vb Vi Vc tn' where
    "base_utility m X = Inr Vb" "infra_utility m X Z = Inr Vi"
    "tastenet_forward (training m) rnd (tastenet m) X = (Inr g, tn')" "m' = m\<lparr>tastenet := tn'\<rparr>"
    "credit_utility g ca se = Inr Vc" "total_utility Vb Vi Vc = Inr V"
    "nrows Vb = nrows X" "ncols Vb = n_alternatives m"
    "nrows Vi = nrows X" "ncols Vi = n_alternatives m"
    "nrows g = nrows X" "ncols g = 1"
    "ncols X = x_dim" "ncols Z = z_dim" "nrows Z = nrows X"
proof -
  from utility_Inr [OF u] obtain Vb Vi tn' Vc where
    h: "base_utility m X = Inr Vb" "infra_utility m X Z = Inr Vi"
       "tastenet_forward (training m) rnd (tastenet m) X = (Inr g, tn')" "m' = m\<lparr>tastenet := tn'\<rparr>"
       "credit_utility g ca se = Inr Vc" "total_utility Vb Vi Vc = Inr V"
    by blast
  from ms have J: "1 \<le> n_alternatives m" "ncols (beta m) = n_alternatives m - 1"
      "ncols (delta m) = n_alternatives m - 1" "nrows (beta m) = x_dim" "nrows (delta m) = z_dim"
      "nrows (weight (out_linear (tastenet m))) = 1"
    by (simp_all add: model_shaped_def tastenet_shaped_def)
  from base_utility_Inr [OF h(1)] J have b: "nrows Vb = nrows X" "ncols Vb = n_alternatives m" "ncols X = x_dim"
    by simp_all
  from infra_utility_Inr [OF h(2)] J have i: "nrows Vi = nrows X" "ncols Vi = n_alternatives m"
      "ncols Z = z_dim" "nrows Z = nrows X"
    by simp_all
  from tastenet_forward_shape [OF h(3)] J have g: "nrows g = nrows X" "ncols g = 1"
    by simp_all
  show thesis
    using that h b i g by blast
qed





lemma bidx_zero [simp]: "bidx d 0 = 0"
  by (simp add: bidx_def)

lemma bget_in_range: "i < nrows T \<Longrightarrow> j < ncols T \<Longrightarrow> bget T i j = entry T i j"
  by (simp add: bget_def)






subsection \<open>The reference alternative\<close>




subsection \<open>Shape errors\<close>

lemma batchnorm_forward_error:
  "batchnorm_forward tr bn x = (Inl e, bn') \<Longrightarrow>
     e = ShapeError \<or> (e = ValueError \<and> tr \<and> nrows x = 1)"
  by (auto simp: batchnorm_forward_def Let_def split: if_splits)

lemma block_forward_error:
  "block_forward tr keep b x = (Inl e, b') \<Longrightarrow>
     e = ShapeError \<or> (e = ValueError \<and> tr \<and> nrows x = 1)"
  by (auto simp: block_forward_def linear_forward_def relu_def
           split: sum.splits prod.splits if_splits dest!: batchnorm_forward_error)

lemma blocks_forward_error:
  "blocks_forward tr rnd k bs x = (Inl e, bs') \<Longrightarrow>
     e = ShapeError \<or> (e = ValueError \<and> tr \<and> nrows x = 1)"
proof (induction bs arbitrary: k x bs')
  case Nil
  then show ?case by simp
next
  case (Cons b bs)
  show ?case
  proof (cases "block_forward tr (rnd k) b x")
    case (Pair r b')
    show ?thesis
    proof (cases r)
      case (Inl e')
      with Pair Cons.prems have "e = e'" by simp
      with Pair Inl show ?thesis by (auto dest: block_forward_error)
    next
      case (Inr y)
      with Pair have n: "nrows y = nrows x" by (auto dest: block_forward_shape)
      from Pair Inr Cons.prems obtain bs'' where
        "blocks_forward tr rnd (Suc k) bs y = (Inl e, bs'')"
        by (auto split: prod.splits)
      from Cons.IH [OF this] n show ?thesis by simp
    qed
  qed
qed

lemma tastenet_forward_error:
  "tastenet_forward tr rnd tn x = (Inl e, tn') \<Longrightarrow>
     e = ShapeError \<or> (e = ValueError \<and> tr \<and> nrows x = 1)"
  by (auto simp: tastenet_forward_def linear_forward_def
           split: sum.splits prod.splits if_splits dest!: blocks_forward_error)

lemma batchnorm_forward_ok:
  "ncols x = num_features bn \<Longrightarrow> \<not> tr \<or> nrows x \<noteq> 1 \<Longrightarrow>
     \<exists>y bn'. batchnorm_forward tr bn x = (Inr y, bn')"
  by (auto simp: batchnorm_forward_def Let_def)

lemma block_forward_ok:
  assumes "ncols x = ncols (weight (blk_linear b))"
    and "num_features (blk_bn b) = nrows (weight (blk_linear b))"
    and "\<not> tr \<or> nrows x \<noteq> 1"
  shows "\<exists>y b'. block_forward tr keep b x = (Inr y, b')"
proof -
  from assms(1) obtain y where y: "linear_forward (blk_linear b) x = Inr y"
    and s: "nrows y = nrows x" "ncols y = nrows (weight (blk_linear b))"
    by (simp add: linear_forward_def)
  from s assms have "ncols (relu y) = num_features (blk_bn b)" "\<not> tr \<or> nrows (relu y) \<noteq> 1"
    by (simp_all add: relu_def)
  from batchnorm_forward_ok [OF this] obtain z bn' where
    "batchnorm_forward tr (blk_bn b) (relu y) = (Inr z, bn')" by blast
  with y show ?thesis by (simp add: block_forward_def)
qed

lemma blocks_forward_ok:
  "blocks_shaped d hs bs \<Longrightarrow> ncols x = d \<Longrightarrow> \<not> tr \<or> nrows x \<noteq> 1 \<Longrightarrow>
     \<exists>y bs'. blocks_forward tr rnd k bs x = (Inr y, bs') \<and> ncols y = last (d # hs)"
proof (induction d hs bs arbitrary: x k rule: blocks_shaped.induct)
  case (1 prev_dim)
  then show ?case by simp
next
  case (2 prev_dim hidden_dim ds b bs)
  from "2.prems" have sh: "ncols x = ncols (weight (blk_linear b))"
    "num_features (blk_bn b) = nrows (weight (blk_linear b))"
    "nrows (weight (blk_linear b)) = hidden_dim" "blocks_shaped hidden_dim ds bs"
    by simp_all
  from block_forward_ok [OF sh(1) sh(2) "2.prems"(3)] obtain y b' where
    y: "block_forward tr (rnd k) b x = (Inr y, b')" by blast
  from block_forward_shape [OF y] sh have s: "nrows y = nrows x" "ncols y = hidden_dim" by simp_all
  with "2.prems" have "\<not> tr \<or> nrows y \<noteq> 1" by simp
  from "2.IH" [OF sh(4) s(2) this] obtain z bs' where
    "blocks_forward tr rnd (Suc k) bs y = (Inr z, bs')" "ncols z = last (hidden_dim # ds)"
    by blast
  with y show ?case by simp
qed simp_all

lemma tastenet_forward_ok:
  assumes "tastenet_shaped d hs out tn" "ncols x = d" "\<not> tr \<or> nrows x \<noteq> 1"
  shows "\<exists>g tn'. tastenet_forward tr rnd tn x = (Inr g, tn')"
proof -
  from assms have "blocks_shaped d hs (hidden tn)"
    and o: "ncols (weight (out_linear tn)) = last (d # hs)"
    by (simp_all add: tastenet_shaped_def)
  from blocks_forward_ok [OF this(1) assms(2) assms(3)] obtain y bs' where
    "blocks_forward tr rnd 0 (hidden tn) x = (Inr y, bs')" "ncols y = last (d # hs)"
    by blast
  with o show ?thesis
    by (simp add: tastenet_forward_def linear_forward_def)
qed


lemma broadcast2_Inl: "broadcast2 f A B = Inl e \<Longrightarrow> e = ShapeError"
  by (auto simp: broadcast2_def split: option.splits)

lemma credit_utility_Inl: "credit_utility g ca se = Inl e \<Longrightarrow> e = ShapeError"
  by (auto simp: credit_utility_def tmul_def bind_err_def split: sum.splits dest: broadcast2_Inl)

lemma total_utility_Inl: "total_utility Vb Vi Vc = Inl e \<Longrightarrow> e = ShapeError"
  by (auto simp: total_utility_def tadd_def bind_err_def split: sum.splits dest: broadcast2_Inl)

lemma base_utility_Inl_iff:
  "base_utility m X = Inl e \<longleftrightarrow> e = ShapeError \<and> ncols X \<noteq> nrows (beta m)"
  by (auto simp: base_utility_def matmul_def cat1_def zeros_def bind_err_def Let_def)

lemma base_utility_ok:
  "ncols X = nrows (beta m) \<Longrightarrow>
     \<exists>V. base_utility m X = Inr V \<and> nrows V = nrows X \<and> ncols V = Suc (ncols (beta m))"
  by (simp add: base_utility_def matmul_def cat1_def zeros_def bind_err_def Let_def)

lemma infra_utility_Inl_iff:
  "infra_utility m X Z = Inl e \<longleftrightarrow>
     e = ShapeError \<and> (ncols Z \<noteq> nrows (delta m) \<or> nrows Z \<noteq> nrows X)"
  by (auto simp: infra_utility_def matmul_def cat1_def zeros_def bind_err_def Let_def)

lemma infra_utility_ok:
  "ncols Z = nrows (delta m) \<Longrightarrow> nrows Z = nrows X \<Longrightarrow>
     \<exists>V. infra_utility m X Z = Inr V \<and> nrows V = nrows X \<and> ncols V = Suc (ncols (delta m))"
  by (simp add: infra_utility_def matmul_def cat1_def zeros_def bind_err_def Let_def)

lemma utility_Inl:
  assumes "utility m rnd X Z ca se = (Inl e, m')"
  shows "e = ShapeError \<or> (e = ValueError \<and> training m \<and> nrows X = 1)"
  using assms
  by (auto simp: utility_def base_utility_Inl_iff infra_utility_Inl_iff bind_err_def
           split: if_splits sum.splits prod.splits
           dest: tastenet_forward_error credit_utility_Inl total_utility_Inl)

lemma forward_fst:
  "fst (forward m rnd X Z ca se) =
     (case fst (utility m rnd X Z ca se) of
        Inl e \<Rightarrow> Inl e
      | Inr (V, g) \<Rightarrow> Inr (log_softmax V, g))"
  by (simp add: forward_def split: prod.splits sum.splits)

lemma utility_bad_inputs:
  assumes ms: "model_shaped x_dim z_dim hs m"
    and bad: "ncols X \<noteq> x_dim \<or> ncols Z \<noteq> z_dim \<or> nrows Z \<noteq> nrows X"
  shows "fst (utility m rnd X Z ca se) = Inl ShapeError"
proof -
  from ms have "nrows (beta m) = x_dim" "nrows (delta m) = z_dim"
    by (simp_all add: model_shaped_def)
  with bad show ?thesis
    by (auto simp: utility_def base_utility_Inl_iff infra_utility_Inl_iff split: sum.splits
             dest: base_utility_Inr infra_utility_Inr)
qed

lemma bdim_wide_left: "a \<noteq> 1 \<Longrightarrow> bdim a b = Some c \<Longrightarrow> c = a \<and> b \<in> {1, a}"
  by (auto simp: bdim_def split: if_splits)

lemma bdim_result_in: "bdim a b = Some c \<Longrightarrow> c \<in> {1, n} \<Longrightarrow> a \<in> {1, n} \<and> b \<in> {1, n}"
  by (auto simp: bdim_def split: if_splits)

lemma utility_Inr_broadcast:
  assumes u: "utility m rnd X Z ca se = (Inr (V, g), m')"
    and ms: "model_shaped x_dim z_dim hs m"
  shows "(nrows X \<noteq> 1 \<longrightarrow> nrows ca \<in> {1, nrows X} \<and> nrows se \<in> {1, nrows X})
       \<and> (n_alternatives m \<noteq> 1 \<longrightarrow> ncols ca \<in> {1, n_alternatives m} \<and> ncols se \<in> {1, n_alternatives m})"
proof -
  from u ms obtain Vb Vi Vc where
    c: "credit_utility g ca se = Inr Vc" and t: "total_utility Vb Vi Vc = Inr V"
    and s: "nrows Vb = nrows X" "ncols Vb = n_alternatives m"
      "nrows Vi = nrows X" "ncols Vi = n_alternatives m"
      "nrows g = nrows X" "ncols g = 1"
    by (rule utility_shapes)
  from c s obtain r1 c1 r c' where
    1: "bdim (nrows X) (nrows ca) = Some r1" "bdim 1 (ncols ca) = Some c1"
       "bdim r1 (nrows se) = Some r" "bdim c1 (ncols se) = Some c'"
       "nrows Vc = r" "ncols Vc = c'"
    by (auto simp: credit_utility_Inr)
  from t s 1 obtain c2 where 2: "bdim (n_alternatives m) c' = Some c2"
    by (auto simp: total_utility_Inr)
  have rows: "nrows ca \<in> {1, nrows X} \<and> nrows se \<in> {1, nrows X}" if B: "nrows X \<noteq> 1"
  proof -
    from bdim_wide_left [OF B 1(1)] have a: "r1 = nrows X" "nrows ca \<in> {1, nrows X}" by simp_all
    from 1(3) have "bdim (nrows X) (nrows se) = Some r" by (simp add: a)
    from bdim_wide_left [OF B this] a show ?thesis by simp
  qed
  have cols: "ncols ca \<in> {1, n_alternatives m} \<and> ncols se \<in> {1, n_alternatives m}"
    if J: "n_alternatives m \<noteq> 1"
  proof -
    from 1(2) have c1: "c1 = ncols ca" by simp
    from bdim_wide_left [OF J 2] have "c' \<in> {1, n_alternatives m}" by simp
    from bdim_result_in [OF 1(4) this] c1 show ?thesis by simp
  qed
  from rows cols show ?thesis by blast
qed

lemma bdim_narrow_right: "b \<in> {1, a} \<Longrightarrow> bdim a b = Some a"
  by (auto simp: bdim_def)

lemma bdim_both: "a \<in> {1, n} \<Longrightarrow> b \<in> {1, n} \<Longrightarrow> \<exists>c. bdim a b = Some c \<and> c \<in> {1, n}"
  by (auto simp: bdim_def)

lemma credit_utility_ok:
  assumes g: "nrows g = B" "ncols g = 1"
    and sh: "nrows ca \<in> {1, B}" "nrows se \<in> {1, B}" "ncols ca \<in> {1, J}" "ncols se \<in> {1, J}"
  shows "\<exists>Vc. credit_utility g ca se = Inr Vc \<and> nrows Vc = B \<and> ncols Vc \<in> {1, J}"
proof -
  have r1: "bdim (nrows g) (nrows ca) = Some B" using g sh by (simp add: bdim_narrow_right)
  have c1: "bdim (ncols g) (ncols ca) = Some (ncols ca)" using g by simp
  have r: "bdim B (nrows se) = Some B" using sh by (simp add: bdim_narrow_right)
  from bdim_both [OF sh(3) sh(4)] obtain c where c: "bdim (ncols ca) (ncols se) = Some c" "c \<in> {1, J}"
    by blast
  show ?thesis
    unfolding credit_utility_Inr using r1 c1 r c by simp
qed

lemma total_utility_ok:
  assumes "nrows Vb = B" "ncols Vb = J" "nrows Vi = B" "ncols Vi = J"
    and "nrows Vc = B" "ncols Vc \<in> {1, J}"
  shows "\<exists>V. total_utility Vb Vi Vc = Inr V \<and> nrows V = B \<and> ncols V = J"
proof -
  have "bdim J (ncols Vc) = Some J" using assms by (simp add: bdim_narrow_right)
  then show ?thesis
    unfolding total_utility_Inr using assms by simp
qed

lemma utility_ok:
  assumes ms: "model_shaped x_dim z_dim hs m"
    and sh: "ncols X = x_dim" "ncols Z = z_dim" "nrows Z = nrows X"
      "nrows ca \<in> {1, nrows X}" "nrows se \<in> {1, nrows X}"
      "ncols ca \<in> {1, n_alternatives m}" "ncols se \<in> {1, n_alternatives m}"
    and tr: "\<not> training m \<or> nrows X \<noteq> 1"
  shows "\<exists>V g. fst (utility m rnd X Z ca se) = Inr (V, g)
           \<and> nrows V = nrows X \<and> ncols V = n_alternatives m"
proof -
  from ms have p: "nrows (beta m) = x_dim" "nrows (delta m) = z_dim"
    "Suc (ncols (beta m)) = n_alternatives m" "Suc (ncols (delta m)) = n_alternatives m"
    and tn: "tastenet_shaped x_dim hs 1 (tastenet m)"
    by (simp_all add: model_shaped_def)
  from tastenet_forward_ok [OF tn sh(1) tr] obtain g tn' where
    g: "tastenet_forward (training m) rnd (tastenet m) X = (Inr g, tn')" by blast
  from tastenet_forward_shape [OF g] tn have gs: "nrows g = nrows X" "ncols g = 1"
    by (simp_all add: tastenet_shaped_def)
  from credit_utility_ok [OF gs sh(4) sh(5) sh(6) sh(7)] obtain Vc where
    c: "credit_utility g ca se = Inr Vc"
    and cs: "nrows Vc = nrows X" "ncols Vc \<in> {1, n_alternatives m}"
    by blast
  obtain Vb where b: "base_utility m X = Inr Vb" "nrows Vb = nrows X" "ncols Vb = n_alternatives m"
    using sh p base_utility_ok [of X m] by auto
  obtain Vi where i: "infra_utility m X Z = Inr Vi" "nrows Vi = nrows X" "ncols Vi = n_alternatives m"
    using sh p infra_utility_ok [of Z m X] by auto
  from total_utility_ok [OF b(2) b(3) i(2) i(3) cs] obtain V where
    t: "total_utility Vb Vi Vc = Inr V" and "nrows V = nrows X" "ncols V = n_alternatives m"
    by blast
  with b i g c show ?thesis
    by (simp add: utility_def bind_err_def)
qed

theorem forward_accepts_broadcast_counterexample:
  "model_shaped 1 1 [1] ex_model
   \<and> nrows (full 1 1 1) \<noteq> nrows (full 2 1 1) \<and> ncols (full 1 1 1) \<noteq> n_alternatives ex_model
   \<and> (case fst (forward ex_model no_drop (full 2 1 1) (full 2 1 1) (full 1 1 1) ex_se) of
        Inl e \<Rightarrow> False
      | Inr (log_probs, gamma_i) \<Rightarrow> nrows log_probs = 2 \<and> ncols log_probs = 2)"
  using ex_model_shaped
  by (simp add: fwd_defs ex_defs ex_se_def log_softmax_def cong: if_cong)

text \<open>
  C7 (amended).  On a model as its constructor shapes it, \<open>forward\<close> fails with a shape error
  when \<open>X\<close> or \<open>Z\<close> has the wrong number of columns or their batch sizes disagree.  It fails,
  with a shape error or (in training mode, on a batch of one row) with the batch
  normalisation's \<open>ValueError\<close>, when the batch size is not 1 and \<open>credit_access\<close> or
  \<open>se_indicator\<close> has a row count that is neither 1 nor the batch size, or when the model has
  more than one alternative and one of them has a column count that is neither 1 nor the
  number of alternatives.  A \<open>credit_access\<close> or \<open>se_indicator\<close> with a single row or a
  single column is accepted and broadcast.
\<close>

theorem forward_shape_errors:
  assumes ms: "model_shaped x_dim z_dim tastenet_hidden m"
  shows "(ncols X \<noteq> x_dim \<or> ncols Z \<noteq> z_dim \<or> nrows Z \<noteq> nrows X
            \<longrightarrow> fst (forward m rnd X Z credit_access se_indicator) = Inl ShapeError)
       \<and> ((nrows X \<noteq> 1 \<and> (nrows credit_access \<notin> {1, nrows X} \<or> nrows se_indicator \<notin> {1, nrows X}))
           \<or> (n_alternatives m \<noteq> 1
               \<and> (ncols credit_access \<notin> {1, n_alternatives m} \<or> ncols se_indicator \<notin> {1, n_alternatives m}))
            \<longrightarrow> fst (forward m rnd X Z credit_access se_indicator) = Inl ShapeError
                \<or> (training m \<and> nrows X = 1
                    \<and> fst (forward m rnd X Z credit_access se_indicator) = Inl ValueError))
       \<and> (ncols X = x_dim \<and> ncols Z = z_dim \<and> nrows Z = nrows X
           \<and> nrows credit_access \<in> {1, nrows X} \<and> nrows se_indicator \<in> {1, nrows X}
           \<and> ncols credit_access \<in> {1, n_alternatives m} \<and> ncols se_indicator \<in> {1, n_alternatives m}
           \<and> (\<not> training m \<or> nrows X \<noteq> 1)
            \<longrightarrow> (\<exists>log_probs gamma_i.
                   fst (forward m rnd X Z credit_access se_indicator) = Inr (log_probs, gamma_i)
                   \<and> nrows log_probs = nrows X \<and> ncols log_probs = n_alternatives m))"
proof (intro conjI impI)
  assume "ncols X \<noteq> x_dim \<or> ncols Z \<noteq> z_dim \<or> nrows Z \<noteq> nrows X"
  from utility_bad_inputs [OF ms this]
  show "fst (forward m rnd X Z credit_access se_indicator) = Inl ShapeError"
    by (simp add: forward_fst)
next
  assume bad: "(nrows X \<noteq> 1 \<and> (nrows credit_access \<notin> {1, nrows X} \<or> nrows se_indicator \<notin> {1, nrows X}))
           \<or> (n_alternatives m \<noteq> 1
               \<and> (ncols credit_access \<notin> {1, n_alternatives m} \<or> ncols se_indicator \<notin> {1, n_alternatives m}))"
  obtain r m' where u: "utility m rnd X Z credit_access se_indicator = (r, m')"
    by (cases "utility m rnd X Z credit_access se_indicator")
  show "fst (forward m rnd X Z credit_access se_indicator) = Inl ShapeError
                \<or> (training m \<and> nrows X = 1
                    \<and> fst (forward m rnd X Z credit_access se_indicator) = Inl ValueError)"
  proof (cases r)
    case (Inl e)
    with u utility_Inl [of m rnd X Z credit_access se_indicator e m'] show ?thesis
      by (auto simp: forward_fst)
  next
    case (Inr p)
    obtain V g where "p = (V, g)" by (cases p)
    with u Inr have "utility m rnd X Z credit_access se_indicator = (Inr (V, g), m')" by simp
    from utility_Inr_broadcast [OF this ms] bad show ?thesis by blast
  qed
next
  assume ok: "ncols X = x_dim \<and> ncols Z = z_dim \<and> nrows Z = nrows X
           \<and> nrows credit_access \<in> {1, nrows X} \<and> nrows se_indicator \<in> {1, nrows X}
           \<and> ncols credit_access \<in> {1, n_alternatives m} \<and> ncols se_indicator \<in> {1, n_alternatives m}
           \<and> (\<not> training m \<or> nrows X \<noteq> 1)"
  then obtain V g where "fst (utility m rnd X Z credit_access se_indicator) = Inr (V, g)"
    "nrows V = nrows X" "ncols V = n_alternatives m"
    using utility_ok [OF ms, of X Z credit_access se_indicator rnd] by blast
  then show "\<exists>log_probs gamma_i.
                   fst (forward m rnd X Z credit_access se_indicator) = Inr (log_probs, gamma_i)
                   \<and> nrows log_probs = nrows X \<and> ncols log_probs = n_alternatives m"
    by (simp add: forward_fst log_softmax_def)
qed

theorem forward_shape_errors_witness:
  "model_shaped 1 1 [1] ex_model
   \<and> fst (forward ex_model no_drop (full 2 2 1) (full 2 1 1) (full 2 2 1) ex_se) = Inl ShapeError
   \<and> fst (forward ex_model no_drop (full 2 1 1) (full 3 1 1) (full 2 2 1) ex_se) = Inl ShapeError
   \<and> fst (forward ex_model no_drop (full 2 1 1) (full 2 1 1) (full 2 3 1) ex_se) = Inl ShapeError
   \<and> fst (forward ex_model no_drop (full 2 1 1) (full 2 1 1) (full 3 2 1) ex_se) = Inl ShapeError
   \<and> (\<exists>log_probs gamma_i.
        fst (forward ex_model no_drop (full 2 1 1) (full 2 1 1) (full 1 1 1) ex_se) = Inr (log_probs, gamma_i)
        \<and> nrows log_probs = 2 \<and> ncols log_probs = 2)"
proof -
  note T = forward_shape_errors [OF ex_model_shaped]
  have e: "n_alternatives ex_model = 2" "training ex_model = False"
    "nrows ex_se = 2" "ncols ex_se = 2"
    "\<And>r c v. nrows (full r c v) = r" "\<And>r c v. ncols (full r c v) = c"
    by (simp_all add: ex_defs ex_se_def)
  have 1: "fst (forward ex_model no_drop (full 2 2 1) (full 2 1 1) (full 2 2 1) ex_se) = Inl ShapeError"
    using T [of "full 2 2 1" "full 2 1 1" no_drop "full 2 2 1" ex_se] by (simp add: e)
  have 2: "fst (forward ex_model no_drop (full 2 1 1) (full 3 1 1) (full 2 2 1) ex_se) = Inl ShapeError"
    using T [of "full 2 1 1" "full 3 1 1" no_drop "full 2 2 1" ex_se] by (simp add: e)
  have 3: "fst (forward ex_model no_drop (full 2 1 1) (full 2 1 1) (full 2 3 1) ex_se) = Inl ShapeError"
    using T [of "full 2 1 1" "full 2 1 1" no_drop "full 2 3 1" ex_se] by (simp add: e)
  have 4: "fst (forward ex_model no_drop (full 2 1 1) (full 2 1 1) (full 3 2 1) ex_se) = Inl ShapeError"
    using T [of "full 2 1 1" "full 2 1 1" no_drop "full 3 2 1" ex_se] by (simp add: e)
  have 5: "\<exists>log_probs gamma_i.
        fst (forward ex_model no_drop (full 2 1 1) (full 2 1 1) (full 1 1 1) ex_se) = Inr (log_probs, gamma_i)
        \<and> nrows log_probs = 2 \<and> ncols log_probs = 2"
    using T [of "full 2 1 1" "full 2 1 1" no_drop "full 1 1 1" ex_se] by (simp add: e)
  from ex_model_shaped 1 2 3 4 5 show ?thesis by blast
qed

subsection \<open>Evaluation mode\<close>

lemma utility_eval:
  assumes "\<not> training m" "utility m rnd X Z ca se = (r, m')"
  shows "m' = m"
  using assms
  by (auto simp: utility_def split: sum.splits prod.splits dest!: tastenet_forward_eval)

lemma utility_eval_rnd:
  assumes "\<not> training m"
  shows "utility m rnd X Z ca se = utility m rnd' X Z ca se"
  using assms tastenet_forward_eval_rnd [of rnd "tastenet m" X rnd']
  by (simp add: utility_def cong: sum.case_cong prod.case_cong)

lemma forward_eval:
  assumes "\<not> training m" "forward m rnd X Z ca se = (r, m')"
  shows "m' = m"
  using assms
  by (auto simp: forward_def split: sum.splits prod.splits dest: utility_eval)

lemma predict_proba_eval:
  assumes "\<not> training m" "predict_proba m rnd X Z ca se = (r, m')"
  shows "m' = m"
  using assms
  by (auto simp: predict_proba_def split: sum.splits prod.splits dest: forward_eval)

lemma predict_proba_eval_pair:
  assumes "\<not> training m"
  shows "predict_proba m rnd X Z ca se = (fst (predict_proba m rnd X Z ca se), m)"
  using predict_proba_eval [OF assms, of rnd X Z ca se]
  by (cases "predict_proba m rnd X Z ca se") simp

lemma training_eval_mode [simp]: "training (eval_mode m) = False"
  by (simp add: eval_mode_def)

subsection \<open>The store\<close>

lemma scale_columns_Inr:
  "scale_columns h a idx k = Inr h' \<longleftrightarrow>
     \<not> list_ex (\<lambda>j. ncols (cells h a) \<le> j) idx
     \<and> h' = h\<lparr>cells := (cells h)(a := scaled (cells h a) idx k)\<rparr>"
  by (auto simp: scale_columns_def)

lemma scaled_shape [simp]: "nrows (scaled t idx k) = nrows t" "ncols (scaled t idx k) = ncols t"
  by (simp_all add: scaled_def)

lemma scaled_one [simp]: "scaled t idx 1 = t"
  by (simp add: scaled_def cong: if_cong)

text \<open>The store after the clone and the scaling of the clone.\<close>

lemma predict_proba_eval_mode:
  "predict_proba (eval_mode m) rnd A B C D = (r, m') \<Longrightarrow> m' = eval_mode m"
  by (rule predict_proba_eval [of "eval_mode m"]) simp_all

lemma counterfactual_analysis_model:
  assumes "counterfactual_analysis m rnd h X Z ca se rate = (r, m', h')"
  shows "m' = eval_mode m"
  using assms
  by (auto simp: counterfactual_analysis_def Let_def split: sum.splits prod.splits
           dest!: predict_proba_eval_mode)

lemma counterfactual_analysis_store:
  assumes "counterfactual_analysis m rnd h X Z ca se rate = (r, m', h')"
  shows "h' = h \<or> h' = fst (clone h ca)
         \<or> h' = (fst (clone h ca))\<lparr>cells := (cells (fst (clone h ca)))
                   (next_free h := scaled (cells h ca) branch_alts (1 - rate))\<rparr>"
  using assms
  by (auto simp: counterfactual_analysis_def Let_def scale_columns_Inr clone_def
           split: sum.splits prod.splits dest!: predict_proba_eval_mode)

subsection \<open>Choice probabilities\<close>






subsection \<open>The counterfactual run\<close>

lemma predict_proba_fst:
  "fst (predict_proba m rnd X Z ca se) =
     (case fst (utility m rnd X Z ca se) of
        Inl e \<Rightarrow> Inl e
      | Inr (V, g) \<Rightarrow> Inr (texp (log_softmax V)))"
  by (simp add: predict_proba_def forward_def split: prod.splits sum.splits)

lemma case_predict_proba_eval:
  "(case predict_proba (eval_mode m) rnd A B C D of (r, m1) \<Rightarrow> F r m1)
     = F (fst (predict_proba (eval_mode m) rnd A B C D)) (eval_mode m)"
  using predict_proba_eval_mode [of m rnd A B C D]
  by (cases "predict_proba (eval_mode m) rnd A B C D") simp

lemma counterfactual_analysis_unfold:
  assumes valid: "X < next_free h" "Z < next_free h" "ca < next_free h" "se < next_free h"
  shows "counterfactual_analysis m rnd h X Z ca se rate =
    (case fst (predict_proba (eval_mode m) rnd (cells h X) (cells h Z) (cells h ca) (cells h se)) of
       Inl e \<Rightarrow> (Inl e, eval_mode m, h)
     | Inr pb \<Rightarrow>
    (case se_rate pb of
       Inl e \<Rightarrow> (Inl e, eval_mode m, h)
     | Inr b \<Rightarrow>
         if list_ex (\<lambda>j. ncols (cells h ca) \<le> j) branch_alts
         then (Inl IndexError, eval_mode m, fst (clone h ca))
         else
    (case fst (predict_proba (eval_mode m) rnd (cells h X) (cells h Z)
                 (scaled (cells h ca) branch_alts (1 - rate)) (cells h se)) of
       Inl e \<Rightarrow> (Inl e, eval_mode m,
                  (fst (clone h ca))\<lparr>cells := (cells (fst (clone h ca)))
                     (next_free h := scaled (cells h ca) branch_alts (1 - rate))\<rparr>)
     | Inr pc \<Rightarrow>
    (case se_rate pc of
       Inl e \<Rightarrow> (Inl e, eval_mode m,
                  (fst (clone h ca))\<lparr>cells := (cells (fst (clone h ca)))
                     (next_free h := scaled (cells h ca) branch_alts (1 - rate))\<rparr>)
     | Inr c \<Rightarrow>
    (case percent_change b c of
       Inl e \<Rightarrow> (Inl e, eval_mode m,
                  (fst (clone h ca))\<lparr>cells := (cells (fst (clone h ca)))
                     (next_free h := scaled (cells h ca) branch_alts (1 - rate))\<rparr>)
     | Inr e \<Rightarrow> (Inr (b, c, e), eval_mode m,
                  (fst (clone h ca))\<lparr>cells := (cells (fst (clone h ca)))
                     (next_free h := scaled (cells h ca) branch_alts (1 - rate))\<rparr>))))))"
  using valid
  by (simp add: counterfactual_analysis_def Let_def case_predict_proba_eval clone_def
        scale_columns_def
      split: sum.splits cong: sum.case_cong)


lemma tensor_mean_upt:
  "0 < n \<Longrightarrow> tensor_mean (map f [0..<n]) = Num ((\<Sum>i<n. f i) / real n)"
  by (simp add: tensor_mean_def interv_sum_list_conv_sum_set_nat atLeast0LessThan)

lemma tensor_mean_empty: "tensor_mean (map f [0..<0]) = NaN"
  by (simp add: tensor_mean_def)

lemma se_rate_wide:
  "7 < ncols p \<Longrightarrow>
     se_rate p = Inr (tensor_mean (map (\<lambda>i. entry p i 1 + entry p i 4 + entry p i 7) [0..<nrows p]))"
  by (simp add: se_rate_def se_alts_def add.assoc)

lemma se_rate_Inr_wide: "se_rate p = Inr b \<Longrightarrow> 7 < ncols p"
  by (auto simp: se_rate_def se_alts_def split: if_splits)

lemma se_rate_softmax_nonzero:
  assumes "se_rate (texp (log_softmax V)) = Inr b"
  shows "b \<noteq> Num 0"
proof (cases "nrows V = 0")
  case True
  with assms show ?thesis
    by (auto simp: se_rate_def tensor_mean_def texp_def log_softmax_def split: if_splits)
next
  case False
  let ?p = "texp (log_softmax V)"
  let ?f = "\<lambda>i. entry ?p i 1 + entry ?p i 4 + entry ?p i 7"
  from False have n: "0 < nrows ?p" by (simp add: texp_def log_softmax_def)
  from se_rate_Inr_wide [OF assms] have "se_rate ?p = Inr (tensor_mean (map ?f [0..<nrows ?p]))"
    by (rule se_rate_wide)
  with assms have b: "b = Num ((\<Sum>i<nrows ?p. ?f i) / real (nrows ?p))"
    by (simp add: tensor_mean_upt [OF n])
  have "0 < ?f i" for i
    by (simp add: texp_def add_pos_pos)
  then have "0 < (\<Sum>i<nrows ?p. ?f i)"
    using n by (intro sum_pos) auto
  with n b show ?thesis by simp
qed

lemma percent_change_Inr_iff:
  "percent_change b c = Inr e \<longleftrightarrow> b \<noteq> Num 0 \<and> e = py_mul (py_quot (py_sub c b) b) (Num 100)"
  by (auto simp: percent_change_def py_truediv_def bind_err_def)

lemma model_shaped_eval_mode [simp]:
  "model_shaped x_dim z_dim hs (eval_mode m) = model_shaped x_dim z_dim hs m"
  by (simp add: model_shaped_def eval_mode_def)

lemma n_alternatives_eval_mode [simp]: "n_alternatives (eval_mode m) = n_alternatives m"
  by (simp add: eval_mode_def)

lemma predict_proba_ok:
  assumes ms: "model_shaped x_dim z_dim hs m"
    and sh: "ncols X = x_dim" "ncols Z = z_dim" "nrows Z = nrows X"
      "nrows ca = nrows X" "ncols ca = n_alternatives m"
      "nrows se = nrows X" "ncols se = n_alternatives m"
  shows "\<exists>V g. fst (utility (eval_mode m) rnd X Z ca se) = Inr (V, g)
           \<and> fst (predict_proba (eval_mode m) rnd X Z ca se) = Inr (texp (log_softmax V))
           \<and> nrows V = nrows X \<and> ncols V = n_alternatives m"
proof -
  have "\<exists>V g. fst (utility (eval_mode m) rnd X Z ca se) = Inr (V, g)
           \<and> nrows V = nrows X \<and> ncols V = n_alternatives (eval_mode m)"
    by (rule utility_ok [where x_dim = x_dim and z_dim = z_dim and hs = hs]) (simp_all add: ms sh)
  then show ?thesis
    by (auto simp: predict_proba_fst)
qed

lemma counterfactual_analysis_succeeds:
  assumes ms: "model_shaped x_dim z_dim hs m" and J: "n_alternatives m = 9"
    and valid: "X < next_free h" "Z < next_free h" "ca < next_free h" "se < next_free h"
    and sh: "ncols (cells h X) = x_dim" "ncols (cells h Z) = z_dim"
      "nrows (cells h Z) = nrows (cells h X)"
      "nrows (cells h ca) = nrows (cells h X)" "ncols (cells h ca) = 9"
      "nrows (cells h se) = nrows (cells h X)" "ncols (cells h se) = 9"
  shows "\<exists>b c e h'. counterfactual_analysis m rnd h X Z ca se rate = (Inr (b, c, e), eval_mode m, h')"
proof -
  let ?cf = "scaled (cells h ca) branch_alts (1 - rate)"
  from predict_proba_ok [OF ms sh(1) sh(2) sh(3), of "cells h ca" "cells h se" rnd] sh J
  obtain V where pb: "fst (predict_proba (eval_mode m) rnd (cells h X) (cells h Z) (cells h ca) (cells h se))
      = Inr (texp (log_softmax V))" and V: "ncols V = 9"
    by auto
  from predict_proba_ok [OF ms sh(1) sh(2) sh(3), of ?cf "cells h se" rnd] sh J
  obtain V' where pc: "fst (predict_proba (eval_mode m) rnd (cells h X) (cells h Z) ?cf (cells h se))
      = Inr (texp (log_softmax V'))" and V': "ncols V' = 9"
    by auto
  from V obtain b where b: "se_rate (texp (log_softmax V)) = Inr b"
    by (simp add: se_rate_wide texp_def log_softmax_def)
  from V' obtain c where c: "se_rate (texp (log_softmax V')) = Inr c"
    by (simp add: se_rate_wide texp_def log_softmax_def)
  from se_rate_softmax_nonzero [OF b] obtain e where e: "percent_change b c = Inr e"
    by (simp add: percent_change_Inr_iff)
  have idx: "\<not> list_ex (\<lambda>j. ncols (cells h ca) \<le> j) branch_alts"
    by (simp add: sh branch_alts_def)
  show ?thesis
    by (simp add: counterfactual_analysis_unfold [OF valid] pb pc b c e idx)
qed

lemma counterfactual_analysis_Inr:
  assumes run: "counterfactual_analysis m rnd h X Z ca se rate = (Inr (b, c, e), m', h')"
    and valid: "X < next_free h" "Z < next_free h" "ca < next_free h" "se < next_free h"
  obtains pb pc where
    "fst (predict_proba (eval_mode m) rnd (cells h X) (cells h Z) (cells h ca) (cells h se)) = Inr pb"
    "se_rate pb = Inr b"
    "fst (predict_proba (eval_mode m) rnd (cells h X) (cells h Z)
            (scaled (cells h ca) branch_alts (1 - rate)) (cells h se)) = Inr pc"
    "se_rate pc = Inr c" "percent_change b c = Inr e"
    "h' = (fst (clone h ca))\<lparr>cells := (cells (fst (clone h ca)))
                     (next_free h := scaled (cells h ca) branch_alts (1 - rate))\<rparr>"
    "m' = eval_mode m"
  using run unfolding counterfactual_analysis_unfold [OF valid]
  by (auto split: sum.splits if_splits)

subsection \<open>The counterfactual engine\<close>

lemma ex_model9_shaped: "model_shaped 1 1 [1] ex_model9"
  by (simp add: model_shaped_def tastenet_shaped_def ex_model9_def ex_net_def full_def)

lemma ex_store_simps:
  "next_free ex_store = 4"
  "cells ex_store 0 = full 2 1 1" "cells ex_store 1 = full 2 1 1"
  "cells ex_store (Suc 0) = full 2 1 1"
  "cells ex_store 2 = synthetic_credit 2" "cells ex_store 3 = synthetic_se 2"
  by (simp_all add: ex_store_def store4_def)

lemma ex_run:
  "\<exists>b c e h'. counterfactual_analysis ex_model9 no_drop ex_store 0 1 2 3 rate
      = (Inr (b, c, e), eval_mode ex_model9, h')"
  by (rule counterfactual_analysis_succeeds [OF ex_model9_shaped])
     (simp_all add: ex_store_simps ex_model9_def full_def synthetic_credit_def synthetic_se_def)

text \<open>
  C5.  When \<open>counterfactual_analysis\<close> returns, the tensor it has built for the
  counterfactual (the clone, at the first free reference of the store) has the shape of
  \<open>credit_access\<close> and its entries, except that the columns 6, 7 and 8 are multiplied by
  \<open>1 - closure_rate\<close>; the caller's \<open>credit_access\<close> is as before; the baseline rate is the
  self-employment rate of the model on \<open>credit_access\<close> and the counterfactual rate that of
  the same model on the clone.  With \<open>closure_rate = 0\<close> the two rates are equal; with
  \<open>closure_rate = 1\<close> the columns 6, 7 and 8 of the clone are 0.
\<close>

theorem counterfactual_credit_tensor:
  assumes run: "counterfactual_analysis m rnd h X Z credit_access se_indicator closure_rate
                  = (Inr (se_rate_base, se_rate_cf, effect), m', h')"
    and valid: "X < next_free h" "Z < next_free h" "credit_access < next_free h"
               "se_indicator < next_free h"
  shows "nrows (cells h' (next_free h)) = nrows (cells h credit_access)
       \<and> ncols (cells h' (next_free h)) = ncols (cells h credit_access)
       \<and> (\<forall>i j. entry (cells h' (next_free h)) i j =
                  (if j = 6 \<or> j = 7 \<or> j = 8
                   then entry (cells h credit_access) i j * (1 - closure_rate)
                   else entry (cells h credit_access) i j))
       \<and> cells h' credit_access = cells h credit_access
       \<and> (\<exists>probs_base.
            fst (predict_proba (eval_mode m) rnd (cells h X) (cells h Z)
                   (cells h credit_access) (cells h se_indicator)) = Inr probs_base
            \<and> se_rate probs_base = Inr se_rate_base)
       \<and> (\<exists>probs_cf.
            fst (predict_proba (eval_mode m) rnd (cells h X) (cells h Z)
                   (cells h' (next_free h)) (cells h se_indicator)) = Inr probs_cf
            \<and> se_rate probs_cf = Inr se_rate_cf)
       \<and> (closure_rate = 0 \<longrightarrow> se_rate_cf = se_rate_base)
       \<and> (closure_rate = 1 \<longrightarrow>
            (\<forall>i. entry (cells h' (next_free h)) i 6 = 0
                 \<and> entry (cells h' (next_free h)) i 7 = 0
                 \<and> entry (cells h' (next_free h)) i 8 = 0))"
proof -
  let ?cf = "scaled (cells h credit_access) branch_alts (1 - closure_rate)"
  from run valid obtain pb pc where
    pb: "fst (predict_proba (eval_mode m) rnd (cells h X) (cells h Z)
                (cells h credit_access) (cells h se_indicator)) = Inr pb"
      "se_rate pb = Inr se_rate_base"
    and pc: "fst (predict_proba (eval_mode m) rnd (cells h X) (cells h Z) ?cf
                (cells h se_indicator)) = Inr pc"
      "se_rate pc = Inr se_rate_cf"
    and h': "h' = (fst (clone h credit_access))\<lparr>cells := (cells (fst (clone h credit_access)))
                     (next_free h := ?cf)\<rparr>"
    by (rule counterfactual_analysis_Inr)
  from h' have cell: "cells h' (next_free h) = ?cf" by simp
  from h' valid have old: "cells h' credit_access = cells h credit_access"
    by (simp add: clone_def)
  have ent: "entry ?cf i j =
      (if j = 6 \<or> j = 7 \<or> j = 8 then entry (cells h credit_access) i j * (1 - closure_rate)
       else entry (cells h credit_access) i j)" for i j
    by (auto simp: scaled_def branch_alts_def)
  have zero: "closure_rate = 0 \<longrightarrow> se_rate_cf = se_rate_base"
    using pb pc by auto
  have "entry ?cf i 6 = 0 \<and> entry ?cf i 7 = 0 \<and> entry ?cf i 8 = 0" if "closure_rate = 1" for i
    unfolding ent using that by simp
  then have one: "closure_rate = 1 \<longrightarrow> (\<forall>i. entry ?cf i 6 = 0 \<and> entry ?cf i 7 = 0 \<and> entry ?cf i 8 = 0)"
    by blast
  have shape: "nrows ?cf = nrows (cells h credit_access)" "ncols ?cf = ncols (cells h credit_access)"
    by simp_all
  from shape ent old pb pc zero one show ?thesis
    unfolding cell by blast
qed

theorem counterfactual_credit_tensor_witness:
  "(case counterfactual_analysis ex_model9 no_drop ex_store 0 1 2 3 0 of
      (Inl e, m', h') \<Rightarrow> False
    | (Inr (se_rate_base, se_rate_cf, effect), m', h') \<Rightarrow>
        se_rate_cf = se_rate_base
        \<and> entry (cells h' 4) 0 7 = 1 \<and> entry (cells h' 4) 0 4 = 3 / 10
        \<and> cells h' 2 = synthetic_credit 2)
   \<and> (case counterfactual_analysis ex_model9 no_drop ex_store 0 1 2 3 1 of
      (Inl e, m', h') \<Rightarrow> False
    | (Inr (se_rate_base, se_rate_cf, effect), m', h') \<Rightarrow>
        entry (cells h' 4) 0 6 = 0 \<and> entry (cells h' 4) 0 7 = 0 \<and> entry (cells h' 4) 0 8 = 0
        \<and> entry (cells h' 4) 0 4 = 3 / 10 \<and> cells h' 2 = synthetic_credit 2)
   \<and> (case counterfactual_analysis ex_model9 no_drop ex_store 0 1 2 3 (1 / 2) of
      (Inl e, m', h') \<Rightarrow> False
    | (Inr (se_rate_base, se_rate_cf, effect), m', h') \<Rightarrow>
        entry (cells h' 4) 0 7 = 1 / 2 \<and> entry (cells h' 4) 1 5 = 3 / 10
        \<and> entry (cells h' 4) 0 0 = 0 \<and> cells h' 2 = synthetic_credit 2)"
proof -
  have valid: "0 < next_free ex_store" "1 < next_free ex_store" "2 < next_free ex_store"
    "3 < next_free ex_store"
    by (simp_all add: ex_store_simps)
  have c: "entry (synthetic_credit 2) i 7 = 1" "entry (synthetic_credit 2) i 6 = 1"
    "entry (synthetic_credit 2) i 8 = 1" "entry (synthetic_credit 2) i 4 = 3 / 10"
    "entry (synthetic_credit 2) i 5 = 3 / 10" "entry (synthetic_credit 2) i 0 = 0" for i
    by (simp_all add: synthetic_credit_def)
  from ex_run [of 0] obtain b0 c0 e0 h0 where
    r0: "counterfactual_analysis ex_model9 no_drop ex_store 0 1 2 3 0
           = (Inr (b0, c0, e0), eval_mode ex_model9, h0)" by blast
  from ex_run [of 1] obtain b1 c1 e1 h1 where
    r1: "counterfactual_analysis ex_model9 no_drop ex_store 0 1 2 3 1
           = (Inr (b1, c1, e1), eval_mode ex_model9, h1)" by blast
  from ex_run [of "1 / 2"] obtain b2 c2 e2 h2 where
    r2: "counterfactual_analysis ex_model9 no_drop ex_store 0 1 2 3 (1 / 2)
           = (Inr (b2, c2, e2), eval_mode ex_model9, h2)" by blast
  note t0 = counterfactual_credit_tensor [OF r0 valid]
  note t1 = counterfactual_credit_tensor [OF r1 valid]
  note t2 = counterfactual_credit_tensor [OF r2 valid]
  have "c0 = b0 \<and> entry (cells h0 4) 0 7 = 1 \<and> entry (cells h0 4) 0 4 = 3 / 10
        \<and> cells h0 2 = synthetic_credit 2"
    using t0 by (simp add: ex_store_simps c)
  moreover have "entry (cells h1 4) 0 6 = 0 \<and> entry (cells h1 4) 0 7 = 0 \<and> entry (cells h1 4) 0 8 = 0
        \<and> entry (cells h1 4) 0 4 = 3 / 10 \<and> cells h1 2 = synthetic_credit 2"
    using t1 by (simp add: ex_store_simps c)
  moreover have "entry (cells h2 4) 0 7 = 1 / 2 \<and> entry (cells h2 4) 1 5 = 3 / 10
        \<and> entry (cells h2 4) 0 0 = 0 \<and> cells h2 2 = synthetic_credit 2"
    using t2 by (simp add: ex_store_simps c)
  ultimately show ?thesis
    unfolding r0 r1 r2 by simp
qed

text \<open>
  C9.  The percent change of a baseline rate that is exactly 0 raises
  \<open>ZeroDivisionError\<close>, whatever the counterfactual rate is; so whenever
  \<open>counterfactual_analysis\<close> returns its three numbers, the baseline rate is not 0 and the
  effect is the percent change of the two rates.
\<close>

theorem zero_baseline_raises:
  "percent_change (Num 0) se_rate_cf = Inl ZeroDivisionError
   \<and> (fst (counterfactual_analysis m rnd h X Z credit_access se_indicator closure_rate)
        = Inr (se_rate_base, cf, effect)
      \<longrightarrow> se_rate_base \<noteq> Num 0 \<and> percent_change se_rate_base cf = Inr effect)"
proof -
  have 1: "percent_change (Num 0) se_rate_cf = Inl ZeroDivisionError"
    by (simp add: percent_change_def py_truediv_def bind_err_def)
  have 2: "percent_change se_rate_base cf = Inr effect"
    if "fst (counterfactual_analysis m rnd h X Z credit_access se_indicator closure_rate)
          = Inr (se_rate_base, cf, effect)"
    using that
    by (auto simp: counterfactual_analysis_def Let_def split: sum.splits prod.splits)
  from 1 2 show ?thesis
    by (auto simp: percent_change_Inr_iff)
qed

theorem zero_baseline_raises_witness:
  "percent_change (Num 0) (Num (1 / 3)) = Inl ZeroDivisionError
   \<and> (case fst (counterfactual_analysis ex_model9 no_drop ex_store 0 1 2 3 (1 / 2)) of
        Inl e \<Rightarrow> False
      | Inr (se_rate_base, se_rate_cf, effect) \<Rightarrow>
          se_rate_base \<noteq> Num 0 \<and> percent_change se_rate_base se_rate_cf = Inr effect)"
proof -
  from ex_run [of "1 / 2"] obtain b c e h' where
    r: "counterfactual_analysis ex_model9 no_drop ex_store 0 1 2 3 (1 / 2)
           = (Inr (b, c, e), eval_mode ex_model9, h')" by blast
  then have f: "fst (counterfactual_analysis ex_model9 no_drop ex_store 0 1 2 3 (1 / 2)) = Inr (b, c, e)"
    by simp
  from zero_baseline_raises [of "Num (1 / 3)" ex_model9 no_drop ex_store 0 1 2 3 "1 / 2" b c e] f
  show ?thesis
    unfolding f by simp
qed

text \<open>
  C10.  Whatever \<open>counterfactual_analysis\<close> returns or raises, the module it leaves is the
  module it received, switched to evaluation mode: \<open>beta\<close>, \<open>delta\<close> and the TasteNet (weights
  and running statistics) are as before; and every tensor that was in the store when it was
  called, the four inputs among them, is as before: the only tensor written is the clone.
\<close>

theorem counterfactual_analysis_mutates_nothing:
  assumes "counterfactual_analysis m rnd h X Z credit_access se_indicator closure_rate = (r, m', h')"
  shows "m' = eval_mode m \<and> beta m' = beta m \<and> delta m' = delta m \<and> tastenet m' = tastenet m
       \<and> n_alternatives m' = n_alternatives m
       \<and> (\<forall>a<next_free h. cells h' a = cells h a)"
proof -
  from assms have m': "m' = eval_mode m" by (rule counterfactual_analysis_model)
  from counterfactual_analysis_store [OF assms]
  have "\<forall>a<next_free h. cells h' a = cells h a"
    by (auto simp: clone_def)
  with m' show ?thesis by (simp add: eval_mode_def)
qed

theorem counterfactual_analysis_mutates_nothing_witness:
  "(case counterfactual_analysis ex_model9 no_drop ex_store 0 1 2 3 (1 / 2) of
      (Inl e, m', h') \<Rightarrow> False
    | (Inr rates, m', h') \<Rightarrow>
        beta m' = full 1 8 0 \<and> delta m' = full 1 8 0 \<and> tastenet m' = ex_net
        \<and> training ex_model9 \<and> m' = eval_mode ex_model9
        \<and> cells h' 0 = full 2 1 1 \<and> cells h' 1 = full 2 1 1
        \<and> cells h' 2 = synthetic_credit 2 \<and> cells h' 3 = synthetic_se 2)"
proof -
  from ex_run [of "1 / 2"] obtain b c e h' where
    r: "counterfactual_analysis ex_model9 no_drop ex_store 0 1 2 3 (1 / 2)
           = (Inr (b, c, e), eval_mode ex_model9, h')" by blast
  from counterfactual_analysis_mutates_nothing [OF r]
  have "\<forall>a<4. cells h' a = cells ex_store a"
    by (simp add: ex_store_simps)
  then have "cells h' 0 = cells ex_store 0" "cells h' 1 = cells ex_store 1"
    "cells h' 2 = cells ex_store 2" "cells h' 3 = cells ex_store 3"
    by simp_all
  then show ?thesis
    unfolding r by (simp add: ex_store_simps) (simp add: ex_model9_def eval_mode_def)
qed

subsection \<open>The taste parameter and the synthetic counterfactual\<close>











lemma synthetic_shapes [simp]:
  "nrows (synthetic_credit n) = n" "ncols (synthetic_credit n) = 9"
  "nrows (synthetic_se n) = n" "ncols (synthetic_se n) = 9"
  by (simp_all add: synthetic_credit_def synthetic_se_def)












subsection \<open>The training loop\<close>

lemma tensor_mean_finite: "tensor_mean xs \<noteq> PInf \<and> tensor_mean xs \<noteq> NInf"
  by (simp add: tensor_mean_def)

lemma nll_loss_finite: "nll_loss lp y = Inr l \<Longrightarrow> l \<noteq> PInf \<and> l \<noteq> NInf"
  by (auto simp: nll_loss_def tensor_mean_def split: if_splits)

lemma py_add_finite:
  "a \<noteq> PInf \<and> a \<noteq> NInf \<Longrightarrow> b \<noteq> PInf \<and> b \<noteq> NInf \<Longrightarrow> py_add a b \<noteq> PInf \<and> py_add a b \<noteq> NInf"
  by (cases a; cases b) simp_all

lemma py_truediv_finite:
  "py_truediv a (Num r) = Inr q \<Longrightarrow> a \<noteq> PInf \<and> a \<noteq> NInf \<Longrightarrow> q \<noteq> PInf \<and> q \<noteq> NInf"
  by (cases a) (auto simp: py_truediv_def split: if_splits)

lemma train_batches_frame:
  "train_batches opt rng bs st trl = Inr (st', trl') \<Longrightarrow>
     best_val_loss st' = best_val_loss st \<and> checkpoint st' = checkpoint st
     \<and> history st' = history st \<and> patience_counter st' = patience_counter st"
proof (induction bs arbitrary: st trl)
  case Nil
  then show ?case by simp
next
  case (Cons b bs)
  from Cons.prems show ?case
    by (auto split: sum.splits prod.splits dest!: Cons.IH)
qed

lemma val_batches_frame:
  "val_batches rng bs st vl = Inr (st', vl') \<Longrightarrow>
     best_val_loss st' = best_val_loss st \<and> checkpoint st' = checkpoint st
     \<and> history st' = history st \<and> patience_counter st' = patience_counter st
     \<and> optimizer st' = optimizer st"
proof (induction bs arbitrary: st vl)
  case Nil
  then show ?case by simp
next
  case (Cons b bs)
  from Cons.prems show ?case
    by (auto split: sum.splits prod.splits dest!: Cons.IH)
qed

lemma val_batches_finite:
  "val_batches rng bs st vl = Inr (st', vl') \<Longrightarrow> vl \<noteq> PInf \<and> vl \<noteq> NInf \<Longrightarrow>
     vl' \<noteq> PInf \<and> vl' \<noteq> NInf"
proof (induction bs arbitrary: st vl)
  case Nil
  then show ?case by simp
next
  case (Cons b bs)
  from Cons.prems(1) obtain lp g m1 loss where
    l: "nll_loss lp (b_y b) = Inr loss"
    and r: "val_batches rng bs (st\<lparr>model := m1\<rparr>) (py_add vl loss) = Inr (st', vl')"
    by (auto split: sum.splits prod.splits)
  from nll_loss_finite [OF l] Cons.prems(2) have "py_add vl loss \<noteq> PInf \<and> py_add vl loss \<noteq> NInf"
    by (intro py_add_finite)
  from Cons.IH [OF r this] show ?case .
qed

lemma early_stopping_cases:
  "early_stopping st w = (st', stop) \<Longrightarrow>
     history st' = history st \<and> model st' = model st
     \<and> (if py_less w (best_val_loss st)
         then best_val_loss st' = w \<and> checkpoint st' = Some (model st) \<and> \<not> stop
         else best_val_loss st' = best_val_loss st \<and> checkpoint st' = checkpoint st)"
  by (auto simp: early_stopping_def split: if_splits)

lemma epoch_step_Inr:
  assumes "epoch_step opt rng train_loader val_loader st = Inr (st', stop)"
  shows "\<exists>w. w \<noteq> PInf \<and> w \<noteq> NInf
           \<and> history st' = history st @ [(w, model st')]
           \<and> (if py_less w (best_val_loss st)
               then best_val_loss st' = w \<and> checkpoint st' = Some (model st') \<and> \<not> stop
               else best_val_loss st' = best_val_loss st \<and> checkpoint st' = checkpoint st)"
proof -
  from assms obtain st1 trl st2 vl trl' w where
    t: "train_pass opt rng train_loader st = Inr (st1, trl)"
    and v: "val_pass rng val_loader st1 = Inr (st2, vl)"
    and d: "py_truediv vl (Num (real (length val_loader))) = Inr w"
    and e: "early_stopping (st2\<lparr>optimizer := sched_step opt (optimizer st2) w,
                 history := history st2 @ [(w, model st2)]\<rparr>) w = (st', stop)"
    by (auto simp: epoch_step_def bind_err_Inr_iff)
  from t have f1: "best_val_loss st1 = best_val_loss st" "checkpoint st1 = checkpoint st"
    "history st1 = history st"
    by (auto simp: train_pass_def dest!: train_batches_frame)
  from v have f2: "best_val_loss st2 = best_val_loss st1" "checkpoint st2 = checkpoint st1"
    "history st2 = history st1"
    by (auto simp: val_pass_def dest!: val_batches_frame)
  from v have "vl \<noteq> PInf \<and> vl \<noteq> NInf"
    unfolding val_pass_def by (rule val_batches_finite) simp
  with d have w: "w \<noteq> PInf \<and> w \<noteq> NInf" by (rule py_truediv_finite)
  from early_stopping_cases [OF e] f1 f2 w show ?thesis
    by (intro exI [of _ w]) (auto split: if_splits)
qed


lemma py_less_PInf_iff: "w \<noteq> PInf \<Longrightarrow> w \<noteq> NInf \<Longrightarrow> py_less w PInf \<longleftrightarrow> (\<exists>u. w = Num u)"
  by (cases w) simp_all

lemma py_less_Num_iff: "w \<noteq> PInf \<Longrightarrow> w \<noteq> NInf \<Longrightarrow> py_less w (Num v) \<longleftrightarrow> (\<exists>u. w = Num u \<and> u < v)"
  by (cases w) simp_all

lemma checkpoint_inv_step:
  assumes inv: "checkpoint_inv file st"
    and step: "epoch_step opt rng train_loader val_loader st = Inr (st', stop)"
  shows "checkpoint_inv file st'" and "length (history st') = Suc (length (history st))"
proof -
  let ?H = "history st"
  let ?n = "length ?H"
  from epoch_step_Inr [OF step] obtain w where
    w: "w \<noteq> PInf" "w \<noteq> NInf"
    and H': "history st' = ?H @ [(w, model st')]"
    and c: "if py_less w (best_val_loss st)
               then best_val_loss st' = w \<and> checkpoint st' = Some (model st') \<and> \<not> stop
               else best_val_loss st' = best_val_loss st \<and> checkpoint st' = checkpoint st"
    by blast
  from H' show "length (history st') = Suc ?n" by simp
  have nth_old: "history st' ! j = ?H ! j" if "j < ?n" for j
    using that by (simp add: H' nth_append)
  have nth_new: "history st' ! ?n = (w, model st')"
    by (simp add: H')
  have len: "length (history st') = Suc ?n" by (simp add: H')
  from inv have fin: "\<forall>j<?n. fst (?H ! j) \<noteq> PInf \<and> fst (?H ! j) \<noteq> NInf"
    by (simp add: checkpoint_inv_def)
  have 1: "\<forall>j<length (history st'). fst (history st' ! j) \<noteq> PInf \<and> fst (history st' ! j) \<noteq> NInf"
    using fin w nth_old nth_new by (auto simp: len less_Suc_eq)
  have 2: "history st' \<noteq> [] \<longrightarrow> model st' = snd (last (history st'))"
    by (simp add: H')
  from inv consider
    (A) "best_val_loss st = PInf" "checkpoint st = file" "\<forall>j<?n. fst (?H ! j) = NaN"
    | (B) k v where "k < ?n" "best_val_loss st = Num v" "fst (?H ! k) = Num v"
        "checkpoint st = Some (snd (?H ! k))"
        "\<forall>j<?n. \<forall>u. fst (?H ! j) = Num u \<longrightarrow> v \<le> u"
        "\<forall>j<k. \<forall>u. fst (?H ! j) = Num u \<longrightarrow> v < u"
    unfolding checkpoint_inv_def by blast
  then have 3: "(best_val_loss st' = PInf \<and> checkpoint st' = file
          \<and> (\<forall>j<length (history st'). fst (history st' ! j) = NaN))
        \<or> (\<exists>k<length (history st'). \<exists>v.
              best_val_loss st' = Num v \<and> fst (history st' ! k) = Num v
              \<and> checkpoint st' = Some (snd (history st' ! k))
              \<and> (\<forall>j<length (history st'). \<forall>u. fst (history st' ! j) = Num u \<longrightarrow> v \<le> u)
              \<and> (\<forall>j<k. \<forall>u. fst (history st' ! j) = Num u \<longrightarrow> v < u))"
  proof cases
    case A
    show ?thesis
    proof (cases "py_less w PInf")
      case True
      with w obtain u where u: "w = Num u" by (auto simp: py_less_PInf_iff)
      from True c A have b: "best_val_loss st' = Num u" "checkpoint st' = Some (model st')"
        by (simp_all add: u)
      have "\<forall>j<length (history st'). \<forall>u'. fst (history st' ! j) = Num u' \<longrightarrow> u \<le> u'"
        using A(3) nth_old nth_new u by (auto simp: len less_Suc_eq)
      moreover have "\<forall>j<?n. \<forall>u'. fst (history st' ! j) = Num u' \<longrightarrow> u < u'"
        using A(3) nth_old by auto
      ultimately show ?thesis
        using b nth_new u len by (intro disjI2 exI [of _ ?n] exI [of _ u]) simp
    next
      case False
      with w have "w = NaN" by (cases w) simp_all
      moreover from False c A have "best_val_loss st' = PInf" "checkpoint st' = file" by simp_all
      ultimately show ?thesis
        using A(3) nth_old nth_new by (auto simp: len less_Suc_eq)
    qed
  next
    case B
    show ?thesis
    proof (cases "py_less w (Num v)")
      case True
      with w obtain u where u: "w = Num u" "u < v" by (auto simp: py_less_Num_iff)
      from True c B have b: "best_val_loss st' = Num u" "checkpoint st' = Some (model st')"
        by (simp_all add: u)
      have "\<forall>j<length (history st'). \<forall>u'. fst (history st' ! j) = Num u' \<longrightarrow> u \<le> u'"
        using B(5) nth_old nth_new u by (fastforce simp: len less_Suc_eq)
      moreover have "\<forall>j<?n. \<forall>u'. fst (history st' ! j) = Num u' \<longrightarrow> u < u'"
        using B(5) nth_old u by fastforce
      ultimately show ?thesis
        using b nth_new u len by (intro disjI2 exI [of _ ?n] exI [of _ u]) simp
    next
      case False
      with w have nw: "\<forall>u. w = Num u \<longrightarrow> v \<le> u" by (auto simp: py_less_Num_iff)
      from False c B have b: "best_val_loss st' = Num v" "checkpoint st' = Some (snd (?H ! k))"
        by simp_all
      have "\<forall>j<length (history st'). \<forall>u'. fst (history st' ! j) = Num u' \<longrightarrow> v \<le> u'"
        using B(5) nth_old nth_new nw by (auto simp: len less_Suc_eq)
      moreover have "\<forall>j<k. \<forall>u'. fst (history st' ! j) = Num u' \<longrightarrow> v < u'"
        using B(6) B(1) nth_old by auto
      ultimately show ?thesis
        using b B(1) B(3) nth_old [OF B(1)] len
        by (intro disjI2 exI [of _ k] exI [of _ v]) simp
    qed
  qed
  from 1 2 3 show "checkpoint_inv file st'"
    unfolding checkpoint_inv_def by blast
qed

lemma epochs_loop_inv:
  assumes "checkpoint_inv file st"
    and "epochs_loop opt rng train_loader val_loader n st = Inr st'"
  shows "checkpoint_inv file st' \<and> (0 < n \<longrightarrow> length (history st) < length (history st'))
         \<and> length (history st) \<le> length (history st')
         \<and> length (history st') \<le> length (history st) + n"
  using assms
proof (induction n arbitrary: st)
  case 0
  then show ?case by simp
next
  case (Suc n)
  from Suc.prems(2) obtain st1 stop where
    step: "epoch_step opt rng train_loader val_loader st = Inr (st1, stop)"
    and rest: "if stop then st' = st1 else epochs_loop opt rng train_loader val_loader n st1 = Inr st'"
    by (auto split: sum.splits prod.splits if_splits)
  from checkpoint_inv_step [OF Suc.prems(1) step]
  have i1: "checkpoint_inv file st1" and l1: "length (history st1) = Suc (length (history st))"
    by simp_all
  show ?case
  proof (cases stop)
    case True
    with rest i1 l1 show ?thesis by auto
  next
    case False
    with rest have "epochs_loop opt rng train_loader val_loader n st1 = Inr st'" by simp
    from Suc.IH [OF i1 this] l1 show ?thesis by auto
  qed
qed

lemmas train_defs = train_tastenet_mnl_def epoch_step_def train_pass_def val_pass_def
  early_stopping_def nll_loss_def tensor_mean_def py_truediv_def load_state_dict_def
  same_shapes_def block_shape_def train_mode_def eval_mode_def log_softmax_def row_max_def

lemmas trainer_ex_defs = ex_opt_def bump_bias_def plain_model_def ex_batch_def
  stale_checkpoint_def full_def no_drop_def

lemma Max_const_lessThan: "0 < n \<Longrightarrow> Max ((\<lambda>x. c) ` {..<n::nat}) = (c :: real)"
  by (simp add: image_constant_conv lessThan_empty_iff)

lemma ex_epoch_0:
  "epoch_step ex_opt (\<lambda>k. no_drop) [ex_batch] [ex_batch]
     \<lparr>model = plain_model, optimizer = (), best_val_loss = PInf,
      patience_counter = 0, checkpoint = None, draws = 0, history = []\<rparr>
   = Inr (\<lparr>model = eval_mode (bump_bias (train_mode plain_model)), optimizer = (),
           best_val_loss = Num (ln 2), patience_counter = 0,
           checkpoint = Some (eval_mode (bump_bias (train_mode plain_model))), draws = 1,
           history = [(Num (ln 2), eval_mode (bump_bias (train_mode plain_model)))]\<rparr>, False)"
  by (simp add: train_defs fwd_defs trainer_ex_defs Max_const_lessThan cong: if_cong)


lemma ex_epoch_1:
  "epoch_step ex_opt (\<lambda>k. no_drop) [ex_batch] [ex_batch]
     \<lparr>model = eval_mode (bump_bias (train_mode plain_model)), optimizer = (),
      best_val_loss = Num (ln 2), patience_counter = 0,
      checkpoint = Some (eval_mode (bump_bias (train_mode plain_model))), draws = 1,
      history = [(Num (ln 2), eval_mode (bump_bias (train_mode plain_model)))]\<rparr>
   = Inr (\<lparr>model = eval_mode (bump_bias (train_mode (eval_mode (bump_bias (train_mode plain_model))))),
           optimizer = (), best_val_loss = Num (ln 2), patience_counter = 1,
           checkpoint = Some (eval_mode (bump_bias (train_mode plain_model))), draws = 2,
           history = [(Num (ln 2), eval_mode (bump_bias (train_mode plain_model))),
                      (Num (ln 2), eval_mode (bump_bias (train_mode (eval_mode (bump_bias (train_mode plain_model))))))]\<rparr>,
          False)"
  by (simp add: train_defs fwd_defs trainer_ex_defs Max_const_lessThan cong: if_cong)

lemma ex_training_run:
  "train_tastenet_mnl ex_opt (\<lambda>k. no_drop) None plain_model [ex_batch] [ex_batch] 2 (1 / 1000)
   = Inr (eval_mode (bump_bias (train_mode plain_model)),
          \<lparr>model = eval_mode (bump_bias (train_mode (eval_mode (bump_bias (train_mode plain_model))))),
           optimizer = (), best_val_loss = Num (ln 2), patience_counter = 1,
           checkpoint = Some (eval_mode (bump_bias (train_mode plain_model))), draws = 2,
           history = [(Num (ln 2), eval_mode (bump_bias (train_mode plain_model))),
                      (Num (ln 2), eval_mode (bump_bias (train_mode (eval_mode (bump_bias (train_mode plain_model))))))]\<rparr>)"
proof -
  have 2: "(2::nat) = Suc (Suc 0)" by simp
  have o: "opt_init ex_opt plain_model (1 / 1000) = ()" by simp
  have l: "load_state_dict (eval_mode (bump_bias (train_mode (eval_mode (bump_bias (train_mode plain_model))))))
             (eval_mode (bump_bias (train_mode plain_model)))
           = Inr (eval_mode (bump_bias (train_mode plain_model)))"
    by (simp add: load_state_dict_def same_shapes_def eval_mode_def train_mode_def bump_bias_def
        plain_model_def)
  show ?thesis
    unfolding train_tastenet_mnl_def 2 epochs_loop.simps o ex_epoch_0 sum.case prod.case if_False
      ex_epoch_1
    by (simp add: l)
qed


lemma checkpoint_inv_initial:
  "checkpoint_inv file \<lparr>model = m, optimizer = opt0, best_val_loss = PInf,
     patience_counter = 0, checkpoint = file, draws = 0, history = []\<rparr>"
  by (simp add: checkpoint_inv_def)

lemma train_tastenet_mnl_Inr:
  assumes "train_tastenet_mnl opt rng file m train_loader val_loader epochs lr = Inr (m', st)"
  obtains sd where
    "epochs_loop opt rng train_loader val_loader epochs
       \<lparr>model = m, optimizer = opt_init opt m lr, best_val_loss = PInf,
        patience_counter = 0, checkpoint = file, draws = 0, history = []\<rparr> = Inr st"
    "checkpoint st = Some sd" "load_state_dict (model st) sd = Inr m'"
  using assms
  by (auto simp: train_tastenet_mnl_def split: sum.splits option.splits)

theorem stale_checkpoint_counterexample:
  "(case train_tastenet_mnl ex_opt (\<lambda>k. no_drop) (Some stale_checkpoint) plain_model
           [ex_batch] [ex_batch] 0 (1 / 1000) of
      Inl e \<Rightarrow> False
    | Inr (m', st) \<Rightarrow>
        history st = [] \<and> best_val_loss st = PInf
        \<and> beta m' = beta stale_checkpoint \<and> entry (beta m') 0 0 = 5
        \<and> entry (beta plain_model) 0 0 = 0)"
  by (simp add: train_tastenet_mnl_def load_state_dict_def same_shapes_def stale_checkpoint_def
      plain_model_def full_def)

text \<open>
  C3 (amended).  For every run of the trainer that returns, with an epoch budget of at
  least 1 and a validation loss at epoch 0 that is a number: the returned model carries
  the parameters of the checkpoint written at some epoch \<open>k\<close> that ran (the module at the end
  of that epoch, which need not be the final one); the validation loss of epoch \<open>k\<close> is at
  most the validation loss of epoch 0 and at most that of every epoch that ran, and smaller
  than that of every earlier epoch; and if no epoch has a validation loss below that of
  epoch 0, then \<open>k\<close> is 0.
\<close>

theorem trainer_returns_best_checkpoint:
  assumes run: "train_tastenet_mnl opt rng file m train_loader val_loader epochs lr = Inr (m', st)"
    and pos: "0 < epochs"
    and v0: "fst (hd (history st)) = Num v0"
  shows "history st \<noteq> [] \<and> length (history st) \<le> epochs \<and> model st = snd (last (history st))
       \<and> (\<exists>k<length (history st). \<exists>v.
             fst (history st ! k) = Num v
             \<and> checkpoint st = Some (snd (history st ! k))
             \<and> load_state_dict (model st) (snd (history st ! k)) = Inr m'
             \<and> beta m' = beta (snd (history st ! k)) \<and> delta m' = delta (snd (history st ! k))
             \<and> tastenet m' = tastenet (snd (history st ! k))
             \<and> v \<le> v0
             \<and> (\<forall>j<length (history st). \<forall>u. fst (history st ! j) = Num u \<longrightarrow> v \<le> u)
             \<and> (\<forall>j<k. \<forall>u. fst (history st ! j) = Num u \<longrightarrow> v < u)
             \<and> ((\<forall>j<length (history st). \<forall>u. fst (history st ! j) = Num u \<longrightarrow> v0 \<le> u) \<longrightarrow> k = 0))"
proof -
  let ?H = "history st"
  from run obtain sd where
    loop: "epochs_loop opt rng train_loader val_loader epochs
       \<lparr>model = m, optimizer = opt_init opt m lr, best_val_loss = PInf,
        patience_counter = 0, checkpoint = file, draws = 0, history = []\<rparr> = Inr st"
    and sd: "checkpoint st = Some sd" and ld: "load_state_dict (model st) sd = Inr m'"
    by (rule train_tastenet_mnl_Inr)
  from epochs_loop_inv [OF checkpoint_inv_initial loop] pos
  have inv: "checkpoint_inv file st" and ne: "?H \<noteq> []" and len: "length ?H \<le> epochs"
    by auto
  from ne v0 have h0: "fst (?H ! 0) = Num v0" by (simp add: hd_conv_nth)
  from ne have l0: "0 < length ?H" by simp
  from inv ne have last: "model st = snd (last ?H)" by (simp add: checkpoint_inv_def)
  from inv h0 l0 obtain k v where
    k: "k < length ?H" "fst (?H ! k) = Num v" "checkpoint st = Some (snd (?H ! k))"
    and mn: "\<forall>j<length ?H. \<forall>u. fst (?H ! j) = Num u \<longrightarrow> v \<le> u"
    and first: "\<forall>j<k. \<forall>u. fst (?H ! j) = Num u \<longrightarrow> v < u"
    unfolding checkpoint_inv_def by fastforce
  from k(3) sd have sdk: "sd = snd (?H ! k)" by simp
  from ld have par: "beta m' = beta sd" "delta m' = delta sd" "tastenet m' = tastenet sd"
    by (auto simp: load_state_dict_def split: if_splits)
  from mn h0 l0 have le0: "v \<le> v0" by blast
  have zero: "k = 0" if "\<forall>j<length ?H. \<forall>u. fst (?H ! j) = Num u \<longrightarrow> v0 \<le> u"
  proof (rule ccontr)
    assume "k \<noteq> 0"
    then have "0 < k" by simp
    with first h0 have "v < v0" by blast
    moreover from that k have "v0 \<le> v" by blast
    ultimately show False by simp
  qed
  from ne len last k ld par le0 mn first zero show ?thesis
    unfolding sdk by blast
qed

theorem trainer_returns_best_checkpoint_witness:
  "(case train_tastenet_mnl ex_opt (\<lambda>k. no_drop) None plain_model [ex_batch] [ex_batch] 2 (1 / 1000) of
      Inl e \<Rightarrow> False
    | Inr (m', st) \<Rightarrow>
        length (history st) = 2 \<and> fst (history st ! 0) = Num (ln 2) \<and> fst (history st ! 1) = Num (ln 2)
        \<and> checkpoint st = Some (snd (history st ! 0))
        \<and> tastenet m' = tastenet (snd (history st ! 0))
        \<and> bias (out_linear (tastenet m')) 0 = 1
        \<and> bias (out_linear (tastenet (model st))) 0 = 2)"
proof -
  let ?m1 = "eval_mode (bump_bias (train_mode plain_model))"
  let ?m2 = "eval_mode (bump_bias (train_mode ?m1))"
  let ?st = "\<lparr>model = ?m2, optimizer = (), best_val_loss = Num (ln 2), patience_counter = 1,
           checkpoint = Some ?m1, draws = 2,
           history = [(Num (ln 2), ?m1), (Num (ln 2), ?m2)]\<rparr>"
  note r = ex_training_run
  have h: "fst (hd (history ?st)) = Num (ln 2)" by simp
  from trainer_returns_best_checkpoint [OF r _ h]
  obtain k where k: "k < length (history ?st)" "checkpoint ?st = Some (snd (history ?st ! k))"
    "tastenet ?m1 = tastenet (snd (history ?st ! k))"
    and z: "(\<forall>j<length (history ?st). \<forall>u. fst (history ?st ! j) = Num u \<longrightarrow> ln 2 \<le> u) \<longrightarrow> k = 0"
    by auto
  have "\<forall>j<length (history ?st). \<forall>u. fst (history ?st ! j) = Num u \<longrightarrow> ln 2 \<le> u"
    by (auto simp: less_Suc_eq)
  with z have "k = 0" by blast
  with k have "checkpoint ?st = Some (snd (history ?st ! 0))"
    "tastenet ?m1 = tastenet (snd (history ?st ! 0))"
    by simp_all
  moreover have "bias (out_linear (tastenet ?m1)) 0 = 1" "bias (out_linear (tastenet ?m2)) 0 = 2"
    by (simp_all add: eval_mode_def train_mode_def bump_bias_def plain_model_def)
  ultimately show ?thesis
    unfolding r by simp
qed

lemma py_truediv_Inl: "py_truediv a b = Inl e \<Longrightarrow> e = ZeroDivisionError"
  by (auto simp: py_truediv_def split: if_splits)

lemma epoch_step_empty_val:
  "epoch_step opt rng train_loader [] st =
     (case train_pass opt rng train_loader st of
        Inl e \<Rightarrow> Inl e
      | Inr r \<Rightarrow> Inl ZeroDivisionError)"
proof (cases "train_pass opt rng train_loader st")
  case (Inl e)
  then show ?thesis by (simp add: epoch_step_def bind_err_def)
next
  case (Inr r)
  obtain st1 train_loss where r: "r = (st1, train_loss)" by (cases r)
  have z: "py_truediv (Num 0) (Num (real (length ([] :: batch list)))) = Inl ZeroDivisionError"
    by (simp add: py_truediv_def)
  show ?thesis
  proof (cases "py_truediv train_loss (Num (real (length train_loader)))")
    case (Inl e)
    with py_truediv_Inl [OF Inl] Inr r show ?thesis
      by (simp add: epoch_step_def bind_err_def val_pass_def)
  next
    case (Inr q)
    with \<open>train_pass opt rng train_loader st = Inr r\<close> r z show ?thesis
      by (simp add: epoch_step_def bind_err_def val_pass_def)
  qed
qed

theorem empty_validation_loader_counterexample:
  "(case train_tastenet_mnl ex_opt (\<lambda>k. no_drop) (Some stale_checkpoint) plain_model
           [ex_batch] [] 0 (1 / 1000) of
      Inl e \<Rightarrow> False
    | Inr (m', st) \<Rightarrow> history st = [] \<and> beta m' = beta stale_checkpoint
        \<and> delta m' = delta stale_checkpoint \<and> tastenet m' = tastenet stale_checkpoint)"
  by (simp add: train_tastenet_mnl_def load_state_dict_def same_shapes_def stale_checkpoint_def
      plain_model_def full_def)

text \<open>
  C8 (amended).  With an epoch budget of at least 1 and a validation loader that yields no
  batch, the trainer never returns a model: it raises in the first epoch, the error of
  the training pass if that pass raises, and otherwise \<open>ZeroDivisionError\<close>, from the
  division of the loss by the number of batches.
\<close>

theorem empty_validation_loader_raises:
  assumes "0 < epochs"
  shows "(\<exists>e. train_tastenet_mnl opt rng file m train_loader [] epochs lr = Inl e)
       \<and> train_tastenet_mnl opt rng file m train_loader [] epochs lr =
           (case train_pass opt rng train_loader
                   \<lparr>model = m, optimizer = opt_init opt m lr, best_val_loss = PInf,
                    patience_counter = 0, checkpoint = file, draws = 0, history = []\<rparr> of
              Inl e \<Rightarrow> Inl e
            | Inr r \<Rightarrow> Inl ZeroDivisionError)"
proof -
  from assms obtain n where n: "epochs = Suc n" by (cases epochs) simp_all
  let ?st0 = "\<lparr>model = m, optimizer = opt_init opt m lr, best_val_loss = PInf,
                    patience_counter = 0, checkpoint = file, draws = 0, history = []\<rparr>"
  have "train_tastenet_mnl opt rng file m train_loader [] epochs lr =
           (case train_pass opt rng train_loader ?st0 of
              Inl e \<Rightarrow> Inl e
            | Inr r \<Rightarrow> Inl ZeroDivisionError)"
    by (simp add: train_tastenet_mnl_def n epoch_step_empty_val split: sum.splits)
  then show ?thesis
    by (auto split: sum.splits)
qed

theorem empty_validation_loader_raises_witness:
  "train_tastenet_mnl ex_opt (\<lambda>k. no_drop) None plain_model [ex_batch] [] 3 (1 / 1000)
     = Inl ZeroDivisionError
   \<and> (case train_pass ex_opt (\<lambda>k. no_drop) [ex_batch]
             \<lparr>model = plain_model, optimizer = (), best_val_loss = PInf,
              patience_counter = 0, checkpoint = None, draws = 0, history = []\<rparr> of
        Inl e \<Rightarrow> False
      | Inr (st, train_loss) \<Rightarrow> train_loss = Num (ln 2) \<and> draws st = 1)"
proof -
  have t: "train_pass ex_opt (\<lambda>k. no_drop) [ex_batch]
             \<lparr>model = plain_model, optimizer = (), best_val_loss = PInf,
              patience_counter = 0, checkpoint = None, draws = 0, history = []\<rparr>
           = Inr (\<lparr>model = bump_bias (train_mode plain_model), optimizer = (), best_val_loss = PInf,
              patience_counter = 0, checkpoint = None, draws = 1, history = []\<rparr>, Num (ln 2))"
    by (simp add: train_defs fwd_defs trainer_ex_defs Max_const_lessThan cong: if_cong)
  have o: "opt_init ex_opt plain_model (1 / 1000) = ()" by simp
  have "(0::nat) < 3" by simp
  from empty_validation_loader_raises [OF this, of ex_opt "\<lambda>k. no_drop" None plain_model "[ex_batch]" "1 / 1000"]
  have "train_tastenet_mnl ex_opt (\<lambda>k. no_drop) None plain_model [ex_batch] [] 3 (1 / 1000)
     = Inl ZeroDivisionError"
    unfolding o t by simp
  then show ?thesis
    unfolding t by simp
qed

end
